theory Spec2Isabelle
  imports Complex_Main
begin

section \<open>Python values\<close>

text \<open>
  The repository is numeric Python over \<open>float\<close> and \<open>numpy.float64\<close>. Floating-point
  numbers are modelled by the reals: every operation but one is the exact one (the
  exception is the addition inside \<open>%\<close>, see \<open>np_mod\<close>), there is no infinity and no NaN. Where numpy would produce NaN (a division of
  zero by zero) the model returns the failure \<open>FloatingPointNaN\<close> instead of a number.
  Exceptions are values of the type \<open>error\<close>, results are \<open>error + 'a\<close>.
\<close>

datatype error = IndexError | ValueError | TypeError | FloatingPointNaN

text \<open>
  \<open>xs[i]\<close> on a Python list: a negative index counts from the end, anything outside
  \<open>-len(xs) \<le> i < len(xs)\<close> raises IndexError.
\<close>

definition py_index :: "'a list \<Rightarrow> int \<Rightarrow> error + 'a" where
  "py_index xs i =
     (if 0 \<le> i \<and> i < int (length xs) then Inr (xs ! nat i)
      else if i < 0 \<and> - int (length xs) \<le> i then Inr (xs ! nat (int (length xs) + i))
      else Inl IndexError)"

text \<open>\<open>int(x)\<close> on a float truncates towards zero.\<close>

definition py_int :: "real \<Rightarrow> int" where
  "py_int x = (if 0 \<le> x then \<lfloor>x\<rfloor> else \<lceil>x\<rceil>)"

section \<open>igrf\_coeffs.py\<close>

subsection \<open>load\_coeffs\<close>

text \<open>
  The model of \<open>load_coeffs\<close> starts after the lines of the file have been selected and
  parsed: its argument is \<open>gh2arr\<close> as the first loop leaves it, one row per selected
  line, each row holding the values of that line from the fourth token on.
  \<open>np.array(gh2arr).transpose()\<close> needs rows of one length (numpy raises ValueError on
  ragged rows); the transposed array has one row per epoch column. No row at all gives an
  array with no column.
\<close>

definition np_transpose :: "'a list list \<Rightarrow> error + 'a list list" where
  "np_transpose rows =
     (case rows of
        [] \<Rightarrow> Inr []
      | r # rs \<Rightarrow>
          if list_ex (\<lambda>r'. length r' \<noteq> length r) rs then Inl ValueError
          else Inr (map (\<lambda>j. map (\<lambda>row. row ! j) rows) [0..<length r]))"

text \<open>
  \<open>for j in range(120): gh.append(gh2arr[i][j])\<close>: a column with fewer than 120 rows
  raises IndexError.
\<close>

fun emit_fixed :: "real list \<Rightarrow> nat list \<Rightarrow> real list \<Rightarrow> error + real list" where
  "emit_fixed col [] gh = Inr gh"
| "emit_fixed col (j # js) gh =
     (if j < length col then emit_fixed col js (gh @ [col ! j]) else Inl IndexError)"

fun emit_columns :: "real list list \<Rightarrow> nat \<Rightarrow> real list \<Rightarrow> error + real list" where
  "emit_columns [] i gh = Inr gh"
| "emit_columns (col # cols) i gh =
     (if i < 19 then
        (case emit_fixed col [0..<120] gh of
           Inl e \<Rightarrow> Inl e
         | Inr gh' \<Rightarrow> emit_columns cols (Suc i) gh')
      else emit_columns cols (Suc i) (gh @ col))"

definition load_coeffs :: "real list list \<Rightarrow> error + real list" where
  "load_coeffs gh2arr =
     (case np_transpose gh2arr of
        Inl e \<Rightarrow> Inl e
      | Inr cols \<Rightarrow>
          (case emit_columns cols 0 [] of
             Inl e \<Rightarrow> Inl e
           | Inr gh \<Rightarrow> Inr (gh @ [0])))"

subsection \<open>get\_coeffs\<close>

text \<open>
  An entry of \<open>g\<close> or \<open>h\<close> is a float or Python's \<open>None\<close>. The records handed to the logger
  are collected by \<open>get_coeffs_log\<close>, in the order of the calls; \<open>str(date)\<close> inside a
  message is kept as the number.
\<close>

type_synonym coeffs = "real option list list \<times> real option list list"

datatype level = DEBUG | INFO | WARNING | ERROR

datatype msg_part = Txt string | Num real

type_synonym log_record = "level \<times> msg_part list"

definition get_coeffs_log :: "real \<Rightarrow> log_record list" where
  "get_coeffs_log date =
     (if date < 1900 \<or> date > 2030 then
        [(ERROR, [Txt ''This subroutine will not work with a date of '', Num date]),
         (ERROR, [Txt ''Date must be in the range 1900.0 <= date <= 2030.0'']),
         (ERROR, [Txt ''On return [], []''])]
      else if date \<ge> 2020 \<and> date > 2025 then
        [(WARNING, [Txt ''This version of the IGRF is intended for use up to 2025.0.'']),
         (WARNING, [Txt ''values for '', Num date,
                    Txt '' will be computed but may be of reduced accuracy''])]
      else [])"

text \<open>\<open>tc * gh[i] + t * gh[i + nc]\<close>\<close>

definition blend :: "real list \<Rightarrow> real \<Rightarrow> real \<Rightarrow> int \<Rightarrow> int \<Rightarrow> error + real" where
  "blend gh tc t nc i =
     (case py_index gh i of
        Inl e \<Rightarrow> Inl e
      | Inr a \<Rightarrow>
          (case py_index gh (i + nc) of
             Inl e \<Rightarrow> Inl e
           | Inr b \<Rightarrow> Inr (tc * a + t * b)))"

text \<open>
  The inner loop \<open>for m in range(n + 1)\<close>; its state is the two rows \<open>g[n]\<close>, \<open>h[n]\<close> and
  the read pointer \<open>temp\<close>.
\<close>

fun order_loop ::
  "real list \<Rightarrow> real \<Rightarrow> real \<Rightarrow> int \<Rightarrow> nat list \<Rightarrow>
   real option list \<times> real option list \<times> int \<Rightarrow>
   error + (real option list \<times> real option list \<times> int)" where
  "order_loop gh tc t nc [] s = Inr s"
| "order_loop gh tc t nc (m # ms) (gn, hn, temp) =
     (if m \<noteq> 0 then
        (case blend gh tc t nc temp of
           Inl e \<Rightarrow> Inl e
         | Inr gv \<Rightarrow>
             (case blend gh tc t nc (temp + 1) of
                Inl e \<Rightarrow> Inl e
              | Inr hv \<Rightarrow>
                  order_loop gh tc t nc ms (gn @ [Some gv], hn @ [Some hv], temp + 2)))
      else
        (case blend gh tc t nc temp of
           Inl e \<Rightarrow> Inl e
         | Inr gv \<Rightarrow> order_loop gh tc t nc ms (gn @ [Some gv], hn @ [None], temp + 1)))"

text \<open>The outer loop \<open>for n in range(nmx + 1)\<close>; its state is \<open>g\<close>, \<open>h\<close> and \<open>temp\<close>.\<close>

fun degree_loop ::
  "real list \<Rightarrow> real \<Rightarrow> real \<Rightarrow> int \<Rightarrow> nat list \<Rightarrow>
   real option list list \<times> real option list list \<times> int \<Rightarrow>
   error + (real option list list \<times> real option list list \<times> int)" where
  "degree_loop gh tc t nc [] s = Inr s"
| "degree_loop gh tc t nc (n # ns) (g, h, temp) =
     (case order_loop gh tc t nc [0..<n + 1] (if n = 0 then [None] else [], [], temp) of
        Inl e \<Rightarrow> Inl e
      | Inr (gn, hn, temp') \<Rightarrow> degree_loop gh tc t nc ns (g @ [gn], h @ [hn], temp'))"

text \<open>
  The choice of \<open>t\<close>, \<open>tc\<close>, \<open>ll\<close>, \<open>nmx\<close> and \<open>nc\<close> from the date (lines 66 to 96).
\<close>

definition epoch_params :: "real \<Rightarrow> real \<times> real \<times> int \<times> nat \<times> int" where
  "epoch_params date =
     (if date \<ge> 2020 then
        (date - 2020, 1, 3060 + 195, 13, 13 * (13 + 2))
      else
        (let t0 = 0.2 * (date - 1900);
             ll0 = py_int t0;
             t = t0 - of_int ll0
         in if date < 1995 then
              (t, 1 - t, 10 * (10 + 2) * ll0, 10, 10 * (10 + 2))
            else
              (t, 1 - t, 120 * 19 + 13 * (13 + 2) * py_int (0.2 * (date - 1995)),
               13, 13 * (13 + 2))))"

definition get_coeffs :: "real list \<Rightarrow> real \<Rightarrow> error + coeffs" where
  "get_coeffs gh date =
     (if date < 1900 \<or> date > 2030 then Inr ([], [])
      else
        (case epoch_params date of
           (t, tc, ll, nmx, nc) \<Rightarrow>
             (case degree_loop gh tc t nc [0..<nmx + 1] ([], [], ll - 1) of
                Inl e \<Rightarrow> Inl e
              | Inr (g, h, temp) \<Rightarrow> Inr (g, h))))"

subsection \<open>The rows that get\_coeffs builds, in closed form\<close>

text \<open>
  \<open>rd gh i\<close> is the element that \<open>gh[i]\<close> reads when the index is in range, \<open>val\<close> the
  blended value read at a pointer, \<open>g_row\<close> and \<open>h_row\<close> the rows \<open>g[n]\<close> and \<open>h[n]\<close> that
  the inner loop builds when it starts with the pointer at \<open>temp\<close>.
\<close>

definition rd :: "real list \<Rightarrow> int \<Rightarrow> real" where
  "rd gh i = gh ! nat (if i < 0 then int (length gh) + i else i)"

definition val :: "real list \<Rightarrow> real \<Rightarrow> real \<Rightarrow> int \<Rightarrow> int \<Rightarrow> real" where
  "val gh tc t nc i = tc * rd gh i + t * rd gh (i + nc)"

definition g_row :: "real list \<Rightarrow> real \<Rightarrow> real \<Rightarrow> int \<Rightarrow> nat \<Rightarrow> int \<Rightarrow> real option list" where
  "g_row gh tc t nc n temp =
     (if n = 0 then [None] else []) @
     Some (val gh tc t nc temp) # map (\<lambda>k. Some (val gh tc t nc (temp + 1 + 2 * int k))) [0..<n]"

definition h_row :: "real list \<Rightarrow> real \<Rightarrow> real \<Rightarrow> int \<Rightarrow> nat \<Rightarrow> int \<Rightarrow> real option list" where
  "h_row gh tc t nc n temp =
     None # map (\<lambda>k. Some (val gh tc t nc (temp + 2 + 2 * int k))) [0..<n]"

text \<open>
  The place of \<open>g[n][m]\<close> and of \<open>h[n][m]\<close> inside a block of the flat table, for
  \<open>n \<ge> 1\<close>: the loops consume the block in sequence, one value for \<open>m = 0\<close> and two
  for every other \<open>m\<close>, so degree \<open>n\<close> starts \<open>n * n - 1\<close> values into the block.
\<close>

definition g_slot :: "nat \<Rightarrow> nat \<Rightarrow> nat" where
  "g_slot n m = (if m = 0 then n * n - 1 else n * n + 2 * m - 2)"

definition h_slot :: "nat \<Rightarrow> nat \<Rightarrow> nat" where
  "h_slot n m = n * n + 2 * m - 1"

text \<open>
  The number stored at \<open>g[n][m]\<close> and at \<open>h[n][m]\<close> of the result for a date, as a
  function of the date (0 where the call fails or the entry is \<open>None\<close>).
\<close>

definition g_value :: "real list \<Rightarrow> real \<Rightarrow> nat \<Rightarrow> nat \<Rightarrow> real" where
  "g_value gh date n m =
     (case get_coeffs gh date of
        Inl e \<Rightarrow> 0
      | Inr (g, h) \<Rightarrow> (case g ! n ! m of None \<Rightarrow> 0 | Some v \<Rightarrow> v))"

definition h_value :: "real list \<Rightarrow> real \<Rightarrow> nat \<Rightarrow> nat \<Rightarrow> real" where
  "h_value gh date n m =
     (case get_coeffs gh date of
        Inl e \<Rightarrow> 0
      | Inr (g, h) \<Rightarrow> (case h ! n ! m of None \<Rightarrow> 0 | Some v \<Rightarrow> v))"

section \<open>numpy functions and array arguments\<close>

text \<open>
  \<open>np.round\<close> rounds half to even: it scales by a power of ten, takes the nearest integer
  (\<open>rint\<close>), and scales back. \<open>np.arctan2\<close> is the angle of the point \<open>(x, y)\<close> in
  \<open>(-\<pi>, \<pi>]\<close>, 0 at the origin (the reals have no negative zero).
\<close>

definition rint :: "real \<Rightarrow> real" where
  "rint x =
     (let fl = \<lfloor>x\<rfloor>; fr = x - of_int fl
      in if fr < 1 / 2 then of_int fl
         else if 1 / 2 < fr then of_int (fl + 1)
         else if even fl then of_int fl else of_int (fl + 1))"

definition np_round :: "real \<Rightarrow> int \<Rightarrow> real" where
  "np_round x decimals =
     (if 0 \<le> decimals then rint (x * 10 ^ nat decimals) / 10 ^ nat decimals
      else rint (x / 10 ^ nat (- decimals)) * 10 ^ nat (- decimals))"

definition rad2deg :: "real \<Rightarrow> real" where
  "rad2deg x = x * (180 / pi)"

definition deg2rad :: "real \<Rightarrow> real" where
  "deg2rad x = x * (pi / 180)"

definition arctan2 :: "real \<Rightarrow> real \<Rightarrow> real" where
  "arctan2 y x =
     (if 0 < x then arctan (y / x)
      else if x < 0 then (if 0 \<le> y then arctan (y / x) + pi else arctan (y / x) - pi)
      else if 0 < y then pi / 2
      else if y < 0 then - (pi / 2)
      else 0)"

text \<open>
  \<open>%\<close> on floats, of numpy and of Python alike, is the C function \<open>fmod\<close>, whose result
  has the sign of the dividend and is exact, followed by an adjustment: a remainder that is
  not zero and whose sign is not the sign of the divisor gets the divisor added. That
  addition is an addition of float64 and rounds. It is the one operation whose rounding
  the model keeps, because it decides whether the result can reach the divisor.
  \<open>round_f64\<close> is the float64 nearest to a real number (ties to even) within the range of
  the normal numbers: the numbers of magnitude in \<open>[2^e, 2^(e+1))\<close> are \<open>2^(e-52)\<close> apart.
\<close>

definition fmod :: "real \<Rightarrow> real \<Rightarrow> real" where
  "fmod x y = x - y * of_int (py_int (x / y))"

definition round_f64 :: "real \<Rightarrow> real" where
  "round_f64 x =
     (if x = 0 then 0
      else (let ulp = 2 powr (of_int \<lfloor>log 2 \<bar>x\<bar>\<rfloor> - 52)
            in rint (x / ulp) * ulp))"

definition np_mod :: "real \<Rightarrow> real \<Rightarrow> real" where
  "np_mod x y =
     (let m = fmod x y
      in if m \<noteq> 0 \<and> (y < 0) \<noteq> (m < 0) then round_f64 (m + y) else m)"

text \<open>
  An argument of a transform is a single Python number, a Python list or a one-dimensional
  numpy array. The coordinate functions take three such arguments of one shape; the model
  takes them together, as one value whose elements are triples, so a call that mixes a
  scalar with a sequence, or sequences of different lengths, is outside the model. A
  result that is a tuple of arrays is an \<open>NdArray\<close> of tuples in the same way.
\<close>

datatype 'a pyval = Scalar 'a | PyList "'a list" | NdArray "'a list"

text \<open>
  The conversion at the head of \<open>ecef2eccdf\<close>, \<open>geodetic2cd\<close> and \<open>eccdf2ecef\<close>: a list goes
  through \<open>np.asarray\<close>, anything else that is not an array is wrapped into an array of
  one element. \<open>np.float64(mlon_cd)\<close> followed by arithmetic with an array of one element
  gives the same elements.
\<close>

definition as_arrays :: "'a pyval \<Rightarrow> 'a list" where
  "as_arrays v = (case v of PyList xs \<Rightarrow> xs | NdArray xs \<Rightarrow> xs | Scalar x \<Rightarrow> [x])"

text \<open>The elements of a value, and a function applied to each until one fails.\<close>

definition items :: "'a pyval \<Rightarrow> 'a list" where
  "items v = (case v of Scalar x \<Rightarrow> [x] | PyList xs \<Rightarrow> xs | NdArray xs \<Rightarrow> xs)"

fun map_err :: "('a \<Rightarrow> error + 'b) \<Rightarrow> 'a list \<Rightarrow> error + 'b list" where
  "map_err f [] = Inr []"
| "map_err f (x # xs) =
     (case f x of
        Inl e \<Rightarrow> Inl e
      | Inr y \<Rightarrow> (case map_err f xs of Inl e \<Rightarrow> Inl e | Inr ys \<Rightarrow> Inr (y # ys)))"

text \<open>
  \<open>float(v)\<close>: a number is itself, an array of exactly one element is that element, any
  other array raises TypeError.
\<close>

definition py_float :: "'a pyval \<Rightarrow> error + 'a" where
  "py_float v =
     (case v of
        Scalar x \<Rightarrow> Inr x
      | NdArray xs \<Rightarrow> (case xs of [x] \<Rightarrow> Inr x | _ \<Rightarrow> Inl TypeError)
      | PyList xs \<Rightarrow> Inl TypeError)"

section \<open>helpers.py\<close>

text \<open>
  An instant is a \<open>datetime.datetime\<close> or an element of an array of \<open>datetime64\<close>; both are
  read through the calendar year, the day of the year and the seconds since midnight.
\<close>

record datetime =
  dt_year :: int
  dt_month :: int
  dt_day :: int
  dt_hour :: int
  dt_minute :: int
  dt_second :: int

definition is_leap :: "int \<Rightarrow> bool" where
  "is_leap y = (if y mod 100 = 0 then y mod 400 = 0 else y mod 4 = 0)"

definition days_before_month :: "int \<Rightarrow> int \<Rightarrow> int" where
  "days_before_month y mo =
     sum_list (take (nat (mo - 1))
       [31, if is_leap y then 29 else 28, 31, 30, 31, 30, 31, 31, 30, 31, 30, 31])"

definition tm_yday :: "datetime \<Rightarrow> int" where
  "tm_yday d = days_before_month (dt_year d) (dt_month d) + dt_day d"

definition seconds_of_day :: "datetime \<Rightarrow> real" where
  "seconds_of_day d = of_int (dt_hour d * 3600 + dt_minute d * 60 + dt_second d)"

text \<open>The body of \<open>subsol\<close> from \<open>yr = year - 2000\<close> on, for one element of the arrays.\<close>

definition subsol_element :: "int \<Rightarrow> int \<Rightarrow> real \<Rightarrow> real \<times> real" where
  "subsol_element yr0 doy ut =
     (let yr = yr0 - 2000;
          nleap0 = \<lfloor>(of_int yr0 - 1601) / (4 :: real)\<rfloor> - 99;
          nleap = (if yr0 \<le> 1900
                   then nleap0 + (3 - \<lfloor>(of_int yr0 - 1601) / (100 :: real)\<rfloor>)
                   else nleap0);
          l0 = - 79.549 + (- 0.238699 * (of_int yr - 4 * of_int nleap) + 3.08514 / 100 * of_int nleap);
          g0 = - 2.472 + (- 0.2558905 * (of_int yr - 4 * of_int nleap) - 3.79617 / 100 * of_int nleap);
          df = (ut / 86400 - 1.5) + of_int doy;
          lmean = l0 + 0.9856474 * df;
          grad = deg2rad (g0 + 0.9856003 * df);
          lmrad = deg2rad (lmean + 1.915 * sin grad + 0.020 * sin (2 * grad));
          sinlm = sin lmrad;
          epsrad = deg2rad (23.439 - 4 / 10000000 * (df + 365 * of_int yr + of_int nleap));
          alpha = rad2deg (arctan2 (cos epsrad * sinlm) (cos lmrad));
          sslat = rad2deg (arcsin (sin epsrad * sinlm));
          etdeg0 = lmean - alpha;
          etdeg = etdeg0 - 360 * rint (etdeg0 / 360);
          sslon0 = 180 - (ut / 240 + etdeg);
          sslon = sslon0 - 360 * rint (sslon0 / 360)
      in (sslat, sslon))"

definition subsol :: "datetime pyval \<Rightarrow> error + (real \<times> real) pyval" where
  "subsol v =
     (case v of
        Scalar d \<Rightarrow>
          if 1601 \<le> dt_year d \<and> dt_year d \<le> 2100
          then Inr (Scalar (subsol_element (dt_year d) (tm_yday d) (seconds_of_day d)))
          else Inl ValueError
      | NdArray ds \<Rightarrow>
          if list_all (\<lambda>d. 1601 \<le> dt_year d \<and> dt_year d \<le> 2100) ds
          then Inr (NdArray
                 (map (\<lambda>d. subsol_element (dt_year d) (tm_yday d) (seconds_of_day d)) ds))
          else Inl ValueError
      | PyList ds \<Rightarrow> Inl ValueError)"

section \<open>constants.py and the library pymap3d\<close>

text \<open>
  \<open>constants.py\<close> loads the table \<open>GH\<close> from a data file and takes the equatorial radius
  \<open>RE_M\<close> and the squared eccentricity \<open>E_SQ\<close> from pymap3d's WGS84 ellipsoid. Neither the
  data file nor pymap3d belongs to the sources, so the three constants are a parameter of
  the model, and so are the two library functions that the transforms call,
  \<open>pymap3d.geodetic2ecef\<close> and \<open>pymap3d.ecef2geodetic\<close> (on one point: latitude and longitude
  in degrees and altitude in metres, against x, y, z in metres).
\<close>

record constants =
  GH :: "real list"
  RE_M :: real
  E_SQ :: real

record pymap3d =
  pm_geodetic2ecef :: "real \<times> real \<times> real \<Rightarrow> real \<times> real \<times> real"
  pm_ecef2geodetic :: "real \<times> real \<times> real \<Rightarrow> real \<times> real \<times> real"

section \<open>coord\_transforms.py\<close>

text \<open>
  The functions log through \<open>logger.info\<close> and \<open>logger.debug\<close>; these records are left
  out. Array arithmetic is written for one element and mapped over the array.
  \<open>x ** (-0.5)\<close> is written \<open>1 / sqrt x\<close>.
\<close>

definition geodetic2ecef :: "constants \<Rightarrow> real \<times> real \<times> real \<Rightarrow> real \<times> real \<times> real" where
  "geodetic2ecef C p =
     (case p of (geod_lati_deg, geod_long_deg, geod_alti_m) \<Rightarrow>
        let geod_long = deg2rad geod_long_deg;
            geod_lati = deg2rad geod_lati_deg;
            rho = RE_M C * (1 / sqrt (1 - E_SQ C * (sin geod_lati)\<^sup>2))
        in ((rho + geod_alti_m) * cos geod_lati * cos geod_long,
            (rho + geod_alti_m) * cos geod_lati * sin geod_long,
            (rho + geod_alti_m - E_SQ C * rho) * sin geod_lati))"

text \<open>
  \<open>g[n][m]\<close> used as a number: both reads can raise IndexError, and arithmetic on \<open>None\<close>
  raises TypeError.
\<close>

definition coeff_entry :: "real option list list \<Rightarrow> int \<Rightarrow> int \<Rightarrow> error + real" where
  "coeff_entry g n m =
     (case py_index g n of
        Inl e \<Rightarrow> Inl e
      | Inr row \<Rightarrow>
          (case py_index row m of
             Inl e \<Rightarrow> Inl e
           | Inr None \<Rightarrow> Inl TypeError
           | Inr (Some v) \<Rightarrow> Inr v))"

text \<open>
  With all three coefficients zero numpy divides zero by zero and the colatitude is NaN.
\<close>

definition compute_pos_centered_dipole_north_pole :: "constants \<Rightarrow> real \<Rightarrow> error + real \<times> real" where
  "compute_pos_centered_dipole_north_pole C year =
     (case get_coeffs (GH C) year of
        Inl e \<Rightarrow> Inl e
      | Inr (g, h) \<Rightarrow>
          if length g = 0 then Inl ValueError
          else
            (case coeff_entry g 1 0 of
               Inl e \<Rightarrow> Inl e
             | Inr g_n1_m0 \<Rightarrow>
                 (case coeff_entry g 1 1 of
                    Inl e \<Rightarrow> Inl e
                  | Inr g_n1_m1 \<Rightarrow>
                      (case coeff_entry h 1 1 of
                         Inl e \<Rightarrow> Inl e
                       | Inr h_n1_m1 \<Rightarrow>
                           let b0 = sqrt (g_n1_m0\<^sup>2 + g_n1_m1\<^sup>2 + h_n1_m1\<^sup>2)
                           in if b0 = 0 then Inl FloatingPointNaN
                              else Inr (arccos (- g_n1_m0 / b0),
                                        arctan2 h_n1_m1 g_n1_m1 - pi)))))"

text \<open>The rows \<open>xx\<close>, \<open>yy\<close> and \<open>m\<close> of the rotation matrix \<open>R_geoc_cd\<close>.\<close>

definition cd_base_vectors ::
  "real \<Rightarrow> real \<Rightarrow> (real \<times> real \<times> real) \<times> (real \<times> real \<times> real) \<times> (real \<times> real \<times> real)" where
  "cd_base_vectors geoc_colat_n geoc_long_n =
     ((cos geoc_colat_n * cos geoc_long_n, cos geoc_colat_n * sin geoc_long_n, - sin geoc_colat_n),
      (- sin geoc_long_n, cos geoc_long_n, 0),
      (sin geoc_colat_n * cos geoc_long_n, sin geoc_colat_n * sin geoc_long_n, cos geoc_colat_n))"

definition dot :: "real \<times> real \<times> real \<Rightarrow> real \<times> real \<times> real \<Rightarrow> real" where
  "dot a b = (case a of (a1, a2, a3) \<Rightarrow> case b of (b1, b2, b3) \<Rightarrow> a1 * b1 + a2 * b2 + a3 * b3)"

text \<open>\<open>(matrix_arrays @ R_geoc_cd.T).T\<close>: every point is multiplied by the matrix.\<close>

definition ecef2eccdf ::
  "constants \<Rightarrow> (real \<times> real \<times> real) pyval \<Rightarrow> real \<Rightarrow> error + (real \<times> real \<times> real) pyval" where
  "ecef2eccdf C geoc year =
     (let pts = as_arrays geoc
      in case compute_pos_centered_dipole_north_pole C year of
           Inl e \<Rightarrow> Inl e
         | Inr (geoc_colat_n, geoc_long_n) \<Rightarrow>
             (case cd_base_vectors geoc_colat_n geoc_long_n of
                (xx, yy, m) \<Rightarrow> Inr (NdArray (map (\<lambda>p. (dot xx p, dot yy p, dot m p)) pts))))"

text \<open>
  \<open>z / r\<close> at the origin is zero by zero, so the colatitude is NaN there.
\<close>

definition ecef2spherical :: "real \<times> real \<times> real \<Rightarrow> int \<Rightarrow> error + real \<times> real \<times> real" where
  "ecef2spherical p decimals =
     (case p of (x, y, z) \<Rightarrow>
        let r = sqrt (x * x + y * y + z * z)
        in if r = 0 then Inl FloatingPointNaN
           else Inr (np_round (rad2deg (arccos (z / r))) decimals,
                     np_round (rad2deg (arctan2 y x)) decimals,
                     np_round r decimals))"

definition spherical2ecef :: "real \<times> real \<times> real \<Rightarrow> real \<times> real \<times> real" where
  "spherical2ecef p =
     (case p of (colat_geoc, long_geoc, radial_dist_geoc) \<Rightarrow>
        (radial_dist_geoc * sin colat_geoc * cos long_geoc,
         radial_dist_geoc * sin colat_geoc * sin long_geoc,
         radial_dist_geoc * cos colat_geoc))"

text \<open>
  \<open>geodetic2cd\<close> calls \<open>ecef2spherical\<close> without its \<open>decimals\<close> argument, that is with the
  default 2, and then rounds the latitude and the altitude to \<open>decimals\<close>.
\<close>

definition geodetic2cd ::
  "constants \<Rightarrow> pymap3d \<Rightarrow> (real \<times> real \<times> real) pyval \<Rightarrow> int \<Rightarrow> real \<Rightarrow> error + (real \<times> real \<times> real) pyval" where
  "geodetic2cd C P gg decimals year =
     (let pts = as_arrays gg;
          geoc = map (\<lambda>(gglat_deg, gglon_deg, ggalt_km).
                    pm_geodetic2ecef P (gglat_deg, gglon_deg, ggalt_km * 1000)) pts
      in case ecef2eccdf C (NdArray geoc) year of
           Inl e \<Rightarrow> Inl e
         | Inr cd \<Rightarrow>
             (case map_err (\<lambda>p. ecef2spherical p 2) (items cd) of
                Inl e \<Rightarrow> Inl e
              | Inr sph \<Rightarrow>
                  Inr (NdArray
                    (map (\<lambda>(colat_cd, long_cd, r_cd).
                       (np_round (90 - colat_cd) decimals, long_cd,
                        np_round (r_cd - RE_M C) decimals)) sph))))"

text \<open>\<open>matrix_arrays @ R_cd_geoc.T\<close> with \<open>R_cd_geoc\<close> the transpose of the rows.\<close>

definition eccdf2ecef ::
  "constants \<Rightarrow> (real \<times> real \<times> real) pyval \<Rightarrow> real \<Rightarrow> error + (real \<times> real \<times> real) pyval" where
  "eccdf2ecef C cd year =
     (let pts = as_arrays cd
      in case compute_pos_centered_dipole_north_pole C year of
           Inl e \<Rightarrow> Inl e
         | Inr (geoc_colat_n, geoc_long_n) \<Rightarrow>
             (case cd_base_vectors geoc_colat_n geoc_long_n of
                ((xx1, xx2, xx3), (yy1, yy2, yy3), (m1, m2, m3)) \<Rightarrow>
                  Inr (NdArray
                    (map (\<lambda>(x, y, z).
                       (x * xx1 + y * yy1 + z * m1,
                        x * xx2 + y * yy2 + z * m2,
                        x * xx3 + y * yy3 + z * m3)) pts))))"

text \<open>
  \<open>cd2geodetic\<close> has no conversion of its own: \<open>90 - lat_cd_arr\<close> on a Python list raises
  TypeError, a number stays a number until \<open>eccdf2ecef\<close> wraps it.
\<close>

definition cd2geodetic ::
  "constants \<Rightarrow> pymap3d \<Rightarrow> (real \<times> real \<times> real) pyval \<Rightarrow> int \<Rightarrow> real \<Rightarrow> error + (real \<times> real \<times> real) pyval" where
  "cd2geodetic C P cd decimals year =
     (case cd of
        PyList xs \<Rightarrow> Inl TypeError
      | _ \<Rightarrow>
          (let cart = map_pyval (\<lambda>(lat_cd, lon_cd, alt_cd).
                        spherical2ecef (deg2rad (90 - lat_cd), deg2rad lon_cd, alt_cd + RE_M C)) cd
           in (case eccdf2ecef C cart year of
                 Inl e \<Rightarrow> Inl e
               | Inr geoc \<Rightarrow>
                   Inr (NdArray
                     (map (\<lambda>p. (case pm_ecef2geodetic P p of
                                  (lat_geoc, long_geoc, alt_geoc) \<Rightarrow>
                                    (np_round lat_geoc decimals, np_round long_geoc decimals,
                                     np_round alt_geoc decimals))) (items geoc))))))"

text \<open>
  \<open>mlon2mlt\<close> calls \<open>geodetic2cd\<close> with three numbers and no \<open>decimals\<close> and no \<open>year\<close>, that
  is with the defaults 2 and 2021.0. The result of that call is an array of one element,
  against which the longitudes are broadcast.
\<close>

definition mlon2mlt ::
  "constants \<Rightarrow> pymap3d \<Rightarrow> real pyval \<Rightarrow> datetime pyval \<Rightarrow> real \<Rightarrow> error + real pyval" where
  "mlon2mlt C P mlon_cd datetime ssheight =
     (case subsol datetime of
        Inl e \<Rightarrow> Inl e
      | Inr ss \<Rightarrow>
          (case py_float ss of
             Inl e \<Rightarrow> Inl e
           | Inr (sslat_geo, sslon_geo) \<Rightarrow>
               (case geodetic2cd C P (Scalar (sslat_geo, sslon_geo, ssheight)) 2 2021 of
                  Inl e \<Rightarrow> Inl e
                | Inr ss_cd \<Rightarrow>
                    (case items ss_cd of
                       [(sslat_cd, sslon_cd, ssalt_cd)] \<Rightarrow>
                         Inr (NdArray
                           (map (\<lambda>mlon. np_mod ((180 + mlon - sslon_cd) / 15) 24)
                              (as_arrays mlon_cd)))
                     | _ \<Rightarrow> Inl ValueError))))"

text \<open>
  The round trip of the specification,
  \<open>cd2geodetic(*geodetic2cd(lat, lon, alt, year=year), year=year)\<close>, both functions with
  their default \<open>decimals\<close> (2 and 3).
\<close>

definition geodetic_round_trip ::
  "constants \<Rightarrow> pymap3d \<Rightarrow> (real \<times> real \<times> real) pyval \<Rightarrow> real \<Rightarrow> error + (real \<times> real \<times> real) pyval" where
  "geodetic_round_trip C P gg year =
     (case geodetic2cd C P gg 2 year of
        Inl e \<Rightarrow> Inl e
      | Inr cd \<Rightarrow> cd2geodetic C P cd 3 year)"

section \<open>Constants for the examples\<close>

text \<open>
  The examples run the transforms on a table of the length of the IGRF-13 table (19
  blocks of 120, six of 195, the secular variation and the last 0) whose only entry that
  is not 0 is \<open>g[1][0] = -1\<close> of the block of 2020: the dipole axis is then the rotation
  axis. The radius and the eccentricity are those of WGS84. The library's
  \<open>geodetic2ecef\<close> is the function of the same name of \<open>coord_transforms.py\<close>; its
  \<open>ecef2geodetic\<close> is given on the equatorial plane only, where the latitude is 0, the
  longitude is the angle of the point and the altitude its distance from the axis less
  the equatorial radius. The examples pass it points of that plane only.
\<close>

definition example_GH :: "real list" where
  "example_GH = replicate 3255 0 @ [- 1] @ replicate 390 0"

definition example_constants :: constants where
  "example_constants = \<lparr>GH = example_GH, RE_M = 6378137, E_SQ = 669437999014 / 10 ^ 14\<rparr>"

definition equatorial_ecef2geodetic :: "constants \<Rightarrow> real \<times> real \<times> real \<Rightarrow> real \<times> real \<times> real" where
  "equatorial_ecef2geodetic C p =
     (case p of (x, y, z) \<Rightarrow> (0, rad2deg (arctan2 y x), sqrt (x * x + y * y) - RE_M C))"

definition example_pymap3d :: pymap3d where
  "example_pymap3d =
     \<lparr>pm_geodetic2ecef = geodetic2ecef example_constants,
      pm_ecef2geodetic = equatorial_ecef2geodetic example_constants\<rparr>"

text \<open>
  A second table differs from the first in the blocks up to 2010 (every entry below
  offset 3000 is 7), so the dipole of a year before 2015 differs, and agrees with it from
  2015 on.
\<close>

definition example_GH_early :: "real list" where
  "example_GH_early = replicate 3000 7 @ replicate 255 0 @ [- 1] @ replicate 390 0"

definition example_constants_early :: constants where
  "example_constants_early = example_constants\<lparr>GH := example_GH_early\<rparr>"

section \<open>Properties of igrf\_coeffs.py\<close>

lemma py_index_rd:
  "- int (length xs) \<le> i \<Longrightarrow> i < int (length xs) \<Longrightarrow> py_index xs i = Inr (rd xs i)"
  by (simp add: py_index_def rd_def)

lemma blend_val:
  assumes "- int (length gh) \<le> i" "i + nc < int (length gh)" "0 \<le> nc"
  shows "blend gh tc t nc i = Inr (val gh tc t nc i)"
proof -
  have "py_index gh i = Inr (rd gh i)" using assms by (intro py_index_rd) auto
  moreover have "py_index gh (i + nc) = Inr (rd gh (i + nc))" using assms by (intro py_index_rd) auto
  ultimately show ?thesis by (simp add: blend_def val_def)
qed

lemma order_loop_pos:
  assumes "0 \<notin> set ms" "- int (length gh) \<le> temp"
    "temp + 2 * int (length ms) + nc \<le> int (length gh)" "0 \<le> nc"
  shows "order_loop gh tc t nc ms (gn, hn, temp) =
     Inr (gn @ map (\<lambda>k. Some (val gh tc t nc (temp + 2 * int k))) [0..<length ms],
          hn @ map (\<lambda>k. Some (val gh tc t nc (temp + 2 * int k + 1))) [0..<length ms],
          temp + 2 * int (length ms))"
  using assms
proof (induction ms arbitrary: gn hn temp)
  case Nil
  then show ?case by simp
next
  case (Cons m ms)
  have m: "m \<noteq> 0" using Cons.prems(1) by auto
  have b1: "blend gh tc t nc temp = Inr (val gh tc t nc temp)"
    using Cons.prems by (intro blend_val) auto
  have b2: "blend gh tc t nc (temp + 1) = Inr (val gh tc t nc (temp + 1))"
    using Cons.prems by (intro blend_val) auto
  have ih: "order_loop gh tc t nc ms
        (gn @ [Some (val gh tc t nc temp)], hn @ [Some (val gh tc t nc (temp + 1))], temp + 2) =
     Inr ((gn @ [Some (val gh tc t nc temp)]) @
            map (\<lambda>k. Some (val gh tc t nc (temp + 2 + 2 * int k))) [0..<length ms],
          (hn @ [Some (val gh tc t nc (temp + 1))]) @
            map (\<lambda>k. Some (val gh tc t nc (temp + 2 + 2 * int k + 1))) [0..<length ms],
          temp + 2 + 2 * int (length ms))"
    using Cons.prems by (intro Cons.IH) auto
  have sh: "map f [0..<length (m # ms)] = f 0 # map (\<lambda>k. f (Suc k)) [0..<length ms]"
    for f :: "nat \<Rightarrow> real option"
    by (simp add: upt_conv_Cons map_Suc_upt [symmetric] del: upt_Suc)
  have a1: "temp + 2 + 2 * int k = temp + 2 * int (Suc k)" for k by simp
  have a2: "temp + 2 + 2 * int (length ms) = temp + 2 * int (length (m # ms))" by simp
  have "order_loop gh tc t nc (m # ms) (gn, hn, temp) =
      order_loop gh tc t nc ms
        (gn @ [Some (val gh tc t nc temp)], hn @ [Some (val gh tc t nc (temp + 1))], temp + 2)"
    using m by (simp add: b1 b2)
  also note ih
  finally show ?case
    unfolding sh a1 a2 by simp
qed


lemma order_loop_row:
  assumes "- int (length gh) \<le> temp" "temp + 2 * int n + 1 + nc \<le> int (length gh)" "0 \<le> nc"
  shows "order_loop gh tc t nc [0..<n + 1] (if n = 0 then [None] else [], [], temp) =
     Inr (g_row gh tc t nc n temp, h_row gh tc t nc n temp, temp + 2 * int n + 1)"
proof -
  have sp: "[0..<n + 1] = 0 # [Suc 0..<Suc n]" by (simp add: upt_conv_Cons del: upt_Suc)
  have b: "blend gh tc t nc temp = Inr (val gh tc t nc temp)"
    using assms by (intro blend_val) auto
  have nz: "0 \<notin> set [Suc 0..<Suc n]" by simp
  have len: "length [Suc 0..<Suc n] = n" by simp
  have rest: "order_loop gh tc t nc [Suc 0..<Suc n] (gn, hn, temp + 1) =
     Inr (gn @ map (\<lambda>k. Some (val gh tc t nc (temp + 1 + 2 * int k))) [0..<n],
          hn @ map (\<lambda>k. Some (val gh tc t nc (temp + 1 + 2 * int k + 1))) [0..<n],
          temp + 1 + 2 * int n)" for gn hn
    using order_loop_pos [OF nz, of gh "temp + 1" nc tc t gn hn] assms unfolding len by simp
  have a: "temp + 1 + 2 * int k + 1 = temp + 2 + 2 * int k" for k by simp
  have "order_loop gh tc t nc [0..<n + 1] (if n = 0 then [None] else [], [], temp) =
     order_loop gh tc t nc [Suc 0..<Suc n]
       ((if n = 0 then [None] else []) @ [Some (val gh tc t nc temp)], [] @ [None], temp + 1)"
    unfolding sp by (simp add: b del: upt_Suc)
  also note rest
  finally show ?thesis
    unfolding a g_row_def h_row_def by simp
qed

lemma degree_loop_rows:
  assumes "- int (length gh) \<le> base + int a * int a"
    "base + int b * int b + nc \<le> int (length gh)" "0 \<le> nc" "a \<le> b"
  shows "degree_loop gh tc t nc [a..<b] (g, h, base + int a * int a) =
     Inr (g @ map (\<lambda>n. g_row gh tc t nc n (base + int n * int n)) [a..<b],
          h @ map (\<lambda>n. h_row gh tc t nc n (base + int n * int n)) [a..<b],
          base + int b * int b)"
  using assms
proof (induction "b - a" arbitrary: a g h)
  case 0
  then show ?case by simp
next
  case (Suc k)
  then have ab: "a < b" by simp
  have sp: "[a..<b] = a # [Suc a..<b]" using ab by (simp add: upt_conv_Cons)
  have sq: "int (Suc a) * int (Suc a) = int a * int a + 2 * int a + 1" by (simp add: algebra_simps)
  have le: "int (Suc a) * int (Suc a) \<le> int b * int b"
    using ab by (intro mult_mono) auto
  have row: "order_loop gh tc t nc [0..<a + 1] (if a = 0 then [None] else [], [], base + int a * int a) =
     Inr (g_row gh tc t nc a (base + int a * int a), h_row gh tc t nc a (base + int a * int a),
          base + int (Suc a) * int (Suc a))"
    using order_loop_row [of gh "base + int a * int a" a nc tc t] Suc.prems le unfolding sq
    by (simp add: add.assoc)
  have ih: "degree_loop gh tc t nc [Suc a..<b] (g', h', base + int (Suc a) * int (Suc a)) =
     Inr (g' @ map (\<lambda>n. g_row gh tc t nc n (base + int n * int n)) [Suc a..<b],
          h' @ map (\<lambda>n. h_row gh tc t nc n (base + int n * int n)) [Suc a..<b],
          base + int b * int b)" for g' h'
  proof (rule Suc.hyps(1))
    show "k = b - Suc a" using Suc.hyps(2) by simp
    show "- int (length gh) \<le> base + int (Suc a) * int (Suc a)" using Suc.prems(1) unfolding sq by simp
    show "base + int b * int b + nc \<le> int (length gh)" by (rule Suc.prems(2))
    show "0 \<le> nc" by (rule Suc.prems(3))
    show "Suc a \<le> b" using ab by simp
  qed
  have "degree_loop gh tc t nc [a..<b] (g, h, base + int a * int a) =
     degree_loop gh tc t nc [Suc a..<b]
       (g @ [g_row gh tc t nc a (base + int a * int a)],
        h @ [h_row gh tc t nc a (base + int a * int a)], base + int (Suc a) * int (Suc a))"
    unfolding sp degree_loop.simps row by simp
  also note ih
  finally show ?case
    unfolding sp by simp
qed

lemma degree_loop_length:
  "degree_loop gh tc t nc ns (g, h, temp) = Inr (g', h', temp') \<Longrightarrow>
   length g' = length g + length ns \<and> length h' = length h + length ns"
proof (induction ns arbitrary: g h temp)
  case Nil
  then show ?case by simp
next
  case (Cons n ns)
  then show ?case
    by (fastforce split: sum.splits prod.splits)
qed

lemma get_coeffs_in_range_nonempty:
  assumes "1900 \<le> date" "date \<le> 2030" "get_coeffs gh date = Inr (g, h)"
  shows "g \<noteq> [] \<and> h \<noteq> []"
proof -
  obtain t tc ll nmx nc where p: "epoch_params date = (t, tc, ll, nmx, nc)"
    by (metis prod_cases5)
  from assms p obtain temp where
    "degree_loop gh tc t nc [0..<nmx + 1] ([], [], ll - 1) = Inr (g, h, temp)"
    by (auto simp: get_coeffs_def split: sum.splits prod.splits)
  from degree_loop_length [OF this] show ?thesis by auto
qed

lemma get_coeffs_rows:
  assumes "1900 \<le> date" "date \<le> 2030" "epoch_params date = (t, tc, ll, nmx, nc)"
    "nc = int nmx * int nmx + 2 * int nmx"
    "- int (length gh) \<le> ll - 1" "ll + 2 * nc \<le> int (length gh)"
  shows "get_coeffs gh date =
     Inr (map (\<lambda>n. g_row gh tc t nc n (ll - 1 + int n * int n)) [0..<nmx + 1],
          map (\<lambda>n. h_row gh tc t nc n (ll - 1 + int n * int n)) [0..<nmx + 1])"
proof -
  have nc0: "0 \<le> nc" using assms(4) by simp
  have e: "ll - 1 + int (nmx + 1) * int (nmx + 1) + nc = ll + 2 * nc"
    using assms(4) by (simp add: algebra_simps)
  have "degree_loop gh tc t nc [0..<nmx + 1] ([], [], ll - 1 + int 0 * int 0) =
     Inr ([] @ map (\<lambda>n. g_row gh tc t nc n (ll - 1 + int n * int n)) [0..<nmx + 1],
          [] @ map (\<lambda>n. h_row gh tc t nc n (ll - 1 + int n * int n)) [0..<nmx + 1],
          ll - 1 + int (nmx + 1) * int (nmx + 1))"
  proof (rule degree_loop_rows)
    show "- int (length gh) \<le> ll - 1 + int 0 * int 0" using assms(5) by simp
    show "ll - 1 + int (nmx + 1) * int (nmx + 1) + nc \<le> int (length gh)"
      unfolding e by (rule assms(6))
    show "0 \<le> nc" by (rule nc0)
    show "0 \<le> nmx + 1" by simp
  qed
  then have "degree_loop gh tc t nc [0..<nmx + 1] ([], [], ll - 1) =
     Inr (map (\<lambda>n. g_row gh tc t nc n (ll - 1 + int n * int n)) [0..<nmx + 1],
          map (\<lambda>n. h_row gh tc t nc n (ll - 1 + int n * int n)) [0..<nmx + 1],
          ll - 1 + int (nmx + 1) * int (nmx + 1))"
    by simp
  then show ?thesis
    using assms(1,2) by (simp add: get_coeffs_def assms(3) del: upt_Suc)
qed

lemma g_row_nth:
  assumes "1 \<le> n" "m \<le> n" "0 \<le> temp"
  shows "g_row gh tc t nc n temp ! m =
     Some (val gh tc t nc (temp + (if m = 0 then 0 else 2 * int m - 1)))"
proof (cases m)
  case 0
  then show ?thesis using assms by (simp add: g_row_def)
next
  case (Suc k)
  then have "k < n" using assms by simp
  then show ?thesis using assms Suc by (simp add: g_row_def add.assoc del: upt_Suc)
qed

lemma h_row_nth:
  assumes "1 \<le> m" "m \<le> n"
  shows "h_row gh tc t nc n temp ! m = Some (val gh tc t nc (temp + 2 * int m))"
proof (cases m)
  case 0
  then show ?thesis using assms by simp
next
  case (Suc k)
  then have "k < n" using assms by simp
  then show ?thesis using assms Suc by (simp add: h_row_def add.assoc del: upt_Suc)
qed

lemma val_nonneg:
  assumes "0 \<le> i" "0 \<le> nc"
  shows "val gh tc t nc i = tc * gh ! nat i + t * gh ! nat (i + nc)"
  using assms by (simp add: val_def rd_def)

lemma epoch_params_2020:
  "2020 \<le> date \<Longrightarrow> epoch_params date = (date - 2020, 1, 3255, 13, 195)"
  by (simp add: epoch_params_def)

subsection \<open>Dates outside the supported range\<close>

text \<open>
  Claim C5. For every table and every date, \<open>get_coeffs\<close> returns the pair of two empty
  lists exactly when the date is below 1900.0 or above 2030.0. It returns it as a value, no
  exception is raised, and these are exactly the dates at which the three error records are
  logged. In particular the dates 1899.9 and 2030.1 give the empty pair.
\<close>

theorem get_coeffs_empty_iff_out_of_range:
  "(get_coeffs gh date = Inr ([], [])) = (date < 1900 \<or> date > 2030) \<and>
   (map fst (get_coeffs_log date) = [ERROR, ERROR, ERROR]) = (date < 1900 \<or> date > 2030) \<and>
   get_coeffs gh (18999 / 10) = Inr ([], []) \<and>
   get_coeffs gh (20301 / 10) = Inr ([], [])"
proof -
  have a: "(get_coeffs gh date = Inr ([], [])) = (date < 1900 \<or> date > 2030)"
  proof (cases "date < 1900 \<or> date > 2030")
    case True
    then show ?thesis by (simp add: get_coeffs_def)
  next
    case False
    then have "get_coeffs gh date \<noteq> Inr ([], [])"
      using get_coeffs_in_range_nonempty [of date gh "[]" "[]"] by auto
    with False show ?thesis by simp
  qed
  have b: "(map fst (get_coeffs_log date) = [ERROR, ERROR, ERROR]) = (date < 1900 \<or> date > 2030)"
    by (simp add: get_coeffs_log_def)
  have c: "get_coeffs gh (18999 / 10) = Inr ([], [])" by (simp add: get_coeffs_def)
  have d: "get_coeffs gh (20301 / 10) = Inr ([], [])" by (simp add: get_coeffs_def)
  show ?thesis using a b c d by blast
qed

subsection \<open>Extrapolation from 2020.0 on\<close>

lemma slot_bounds:
  assumes "1 \<le> n" "n \<le> 13" "m \<le> n"
  shows "g_slot n m < 195" "h_slot n m < 195"
proof -
  have "n * n \<le> 13 * 13" using assms by (intro mult_le_mono) auto
  then show "g_slot n m < 195" "h_slot n m < 195"
    using assms by (auto simp: g_slot_def h_slot_def)
qed

lemma get_coeffs_from_2020:
  assumes "2020 \<le> date" "date \<le> 2030" "3645 \<le> length gh" "1 \<le> n" "n \<le> 13" "m \<le> n"
  shows "\<exists>g h. get_coeffs gh date = Inr (g, h) \<and>
     length g = 14 \<and> length h = 14 \<and> length (g ! n) = n + 1 \<and> length (h ! n) = n + 1 \<and>
     g_slot n m < 195 \<and> h_slot n m < 195 \<and>
     g ! n ! m = Some (gh ! (3255 + g_slot n m) +
                       (date - 2020) * gh ! (3255 + g_slot n m + 195)) \<and>
     h ! n ! m = (if m = 0 then None
                  else Some (gh ! (3255 + h_slot n m) +
                             (date - 2020) * gh ! (3255 + h_slot n m + 195)))"
proof -
  let ?t = "date - 2020"
  let ?g = "map (\<lambda>n. g_row gh 1 ?t 195 n (3255 - 1 + int n * int n)) [0..<13 + 1]"
  let ?h = "map (\<lambda>n. h_row gh 1 ?t 195 n (3255 - 1 + int n * int n)) [0..<13 + 1]"
  have r: "get_coeffs gh date = Inr (?g, ?h)"
    using assms(1-3) by (intro get_coeffs_rows) (auto simp: epoch_params_2020)
  have n14: "n < 14" using assms by simp
  have gn: "?g ! n = g_row gh 1 ?t 195 n (3254 + int n * int n)"
    using n14 by (simp del: upt_Suc)
  have hn: "?h ! n = h_row gh 1 ?t 195 n (3254 + int n * int n)"
    using n14 by (simp del: upt_Suc)
  have n1: "1 \<le> n * n" using assms(4) by (metis mult_le_mono nat_mult_1)
  have gs: "3254 + int n * int n + (if m = 0 then 0 else 2 * int m - 1) = int (3255 + g_slot n m)"
    using n1 assms by (auto simp: g_slot_def)
  have hs: "3254 + int n * int n + 2 * int m = int (3255 + h_slot n m)" if "m \<noteq> 0"
    using n1 that by (auto simp: h_slot_def)
  have gv: "?g ! n ! m = Some (gh ! (3255 + g_slot n m) + ?t * gh ! (3255 + g_slot n m + 195))"
    unfolding gn using assms(4,6)
    by (subst g_row_nth) (simp_all only: gs val_nonneg, simp_all add: nat_add_distrib)
  have hv: "?h ! n ! m = (if m = 0 then None
       else Some (gh ! (3255 + h_slot n m) + ?t * gh ! (3255 + h_slot n m + 195)))"
  proof (cases "m = 0")
    case True
    then show ?thesis unfolding hn by (simp add: h_row_def)
  next
    case False
    then have "1 \<le> m" by simp
    then have "h_row gh 1 ?t 195 n (3254 + int n * int n) ! m =
        Some (val gh 1 ?t 195 (3254 + int n * int n + 2 * int m))"
      using assms(6) by (simp add: h_row_nth)
    then have "h_row gh 1 ?t 195 n (3254 + int n * int n) ! m =
        Some (val gh 1 ?t 195 (int (3255 + h_slot n m)))"
      unfolding hs [OF False] .
    then show ?thesis
      unfolding hn using False by (simp add: val_nonneg nat_add_distrib)
  qed
  have lg: "length (?g ! n) = n + 1" unfolding gn using assms(4) by (simp add: g_row_def)
  have lh: "length (?h ! n) = n + 1" unfolding hn by (simp add: h_row_def)
  show ?thesis
    using r gv hv lg lh slot_bounds [OF assms(4-6)] by (intro exI [of _ ?g] exI [of _ ?h]) simp
qed

text \<open>
  Claim C2. For a date from 2020.0 to 2030.0 and a table of at least 3645 values (a
  shorter one makes a read fail), \<open>get_coeffs\<close> returns \<open>g\<close> and \<open>h\<close> of degree 13 in which
  every coefficient of degree \<open>n \<ge> 1\<close> is \<open>base + (date - 2020.0) * sv\<close>: \<open>base\<close> is read in
  the block of 195 values that starts at offset 3255 of the flat table, \<open>sv\<close> exactly 195
  entries later, and nothing bounds the factor \<open>date - 2020.0\<close>. \<open>h[n][0]\<close> is \<open>None\<close>.
\<close>

theorem get_coeffs_secular_extrapolation:
  assumes "2020 \<le> date" "date \<le> 2030" "3645 \<le> length gh" "1 \<le> n" "n \<le> 13" "m \<le> n"
  shows "\<exists>g h. get_coeffs gh date = Inr (g, h) \<and>
     length g = 14 \<and> length h = 14 \<and> length (g ! n) = n + 1 \<and> length (h ! n) = n + 1 \<and>
     g_slot n m < 195 \<and> h_slot n m < 195 \<and>
     g ! n ! m = Some (gh ! (3255 + g_slot n m) +
                       (date - 2020) * gh ! (3255 + g_slot n m + 195)) \<and>
     h ! n ! m = (if m = 0 then None
                  else Some (gh ! (3255 + h_slot n m) +
                             (date - 2020) * gh ! (3255 + h_slot n m + 195)))"
  using assms by (rule get_coeffs_from_2020)

theorem get_coeffs_secular_extrapolation_witness:
  "\<exists>g h. get_coeffs (map real [0..<3646]) 2021 = Inr (g, h) \<and>
     g ! 1 ! 1 = Some (3256 + 1 * 3451) \<and> h ! 1 ! 1 = Some (3257 + 1 * 3452)"
  using get_coeffs_secular_extrapolation [of 2021 "map real [0..<3646]" 1 1]
  by (auto simp: g_slot_def h_slot_def)

subsection \<open>The flat table of load\_coeffs\<close>

lemma emit_fixed_upt:
  "b \<le> length col \<Longrightarrow> a \<le> b \<Longrightarrow> emit_fixed col [a..<b] gh = Inr (gh @ take (b - a) (drop a col))"
proof (induction "b - a" arbitrary: a gh)
  case 0
  then show ?case by simp
next
  case (Suc k)
  then have ab: "a < b" by simp
  have sp: "[a..<b] = a # [Suc a..<b]" using ab by (simp add: upt_conv_Cons)
  have ih: "emit_fixed col [Suc a..<b] (gh @ [col ! a]) =
      Inr ((gh @ [col ! a]) @ take (b - Suc a) (drop (Suc a) col))"
    using Suc.hyps(2) Suc.prems ab by (intro Suc.hyps(1)) auto
  have al: "a < length col" using ab Suc.prems by simp
  have "take (b - a) (drop a col) = col ! a # take (b - Suc a) (drop (Suc a) col)"
    using ab al by (metis Cons_nth_drop_Suc Suc_diff_Suc take_Suc_Cons)
  then show ?case
    unfolding sp using al by (simp add: ih)
qed

lemma emit_fixed_120:
  "120 \<le> length col \<Longrightarrow> emit_fixed col [0..<120] gh = Inr (gh @ take 120 col)"
  using emit_fixed_upt [of 120 col 0 gh] by simp

lemma emit_columns_long:
  "\<forall>col \<in> set cols. 120 \<le> length col \<Longrightarrow>
   emit_columns cols i gh =
     Inr (gh @ concat (map (take 120) (take (19 - i) cols)) @ concat (drop (19 - i) cols))"
proof (induction cols arbitrary: i gh)
  case Nil
  then show ?case by simp
next
  case (Cons col cols)
  show ?case
  proof (cases "i < 19")
    case True
    then have d: "19 - i = Suc (18 - i)" "19 - Suc i = 18 - i" by simp_all
    have c120: "120 \<le> length col" and rest: "\<forall>col \<in> set cols. 120 \<le> length col"
      using Cons.prems by simp_all
    have "emit_columns (col # cols) i gh = emit_columns cols (Suc i) (gh @ take 120 col)"
      using True by (simp add: emit_fixed_120 [OF c120])
    also have "\<dots> = Inr ((gh @ take 120 col) @
        concat (map (take 120) (take (19 - Suc i) cols)) @ concat (drop (19 - Suc i) cols))"
      using rest by (rule Cons.IH)
    finally show ?thesis
      unfolding d by simp
  next
    case False
    then have d: "19 - i = 0" "19 - Suc i = 0" by simp_all
    show ?thesis
      using False Cons.prems by (simp add: Cons.IH d)
  qed
qed

lemma take_upt_min: "take m [0..<n] = [0..<min m n]"
proof (cases "m \<le> n")
  case True
  then show ?thesis by (simp add: min_def)
next
  case False
  then show ?thesis by (simp add: min_def)
qed

lemma np_transpose_rect:
  assumes "\<forall>row \<in> set gh2arr. length row = c" "gh2arr \<noteq> []"
  shows "np_transpose gh2arr = Inr (map (\<lambda>j. map (\<lambda>row. row ! j) gh2arr) [0..<c])"
proof -
  obtain r rs where rs: "gh2arr = r # rs" using assms(2) by (cases gh2arr) auto
  have "length r = c" using assms(1) rs by simp
  moreover have "\<not> list_ex (\<lambda>r'. length r' \<noteq> length r) rs"
    using assms(1) rs by (simp add: list_ex_iff)
  ultimately show ?thesis unfolding rs by (simp add: np_transpose_def)
qed

text \<open>
  Claim C3. For a parsed table whose rows all have \<open>c\<close> values (one per epoch column) and
  that has at least 120 rows, \<open>load_coeffs\<close> emits the first 120 rows of each of the first
  19 columns, column after column (the rows from index 120 on of those columns are
  dropped), then every row of each column from index 19 on, and last a single 0.
\<close>

theorem load_coeffs_flattening:
  assumes "\<forall>row \<in> set gh2arr. length row = c" "120 \<le> length gh2arr"
  shows "load_coeffs gh2arr =
     Inr (concat (map (\<lambda>j. take 120 (map (\<lambda>row. row ! j) gh2arr)) [0..<min 19 c]) @
          concat (map (\<lambda>j. map (\<lambda>row. row ! j) gh2arr) [19..<c]) @
          [0])"
proof -
  let ?cols = "map (\<lambda>j. map (\<lambda>row. row ! j) gh2arr) [0..<c]"
  have ne: "gh2arr \<noteq> []" using assms(2) by auto
  have tr: "np_transpose gh2arr = Inr ?cols"
    using assms(1) ne by (rule np_transpose_rect)
  have long: "\<forall>col \<in> set ?cols. 120 \<le> length col" using assms(2) by simp
  have em: "emit_columns ?cols 0 [] =
      Inr ([] @ concat (map (take 120) (take (19 - 0) ?cols)) @ concat (drop (19 - 0) ?cols))"
    using long by (rule emit_columns_long)
  have t: "map (take 120) (take 19 ?cols) =
      map (\<lambda>j. take 120 (map (\<lambda>row. row ! j) gh2arr)) [0..<min 19 c]"
    by (simp add: take_map take_upt_min comp_def del: take_upt)
  have d: "drop 19 ?cols = map (\<lambda>j. map (\<lambda>row. row ! j) gh2arr) [19..<c]"
    by (simp add: drop_map)
  show ?thesis
    unfolding load_coeffs_def tr using em unfolding t d minus_nat.diff_0 t d
    by (simp add: t d)
qed

theorem load_coeffs_flattening_witness:
  "load_coeffs (map (\<lambda>k. replicate 20 (real k)) [0..<121]) =
     Inr (concat (replicate 19 (map real [0..<120])) @ map real [0..<121] @ [0])"
proof -
  let ?rows = "map (\<lambda>k. replicate 20 (real k)) [0..<121]"
  have h1: "\<forall>row \<in> set ?rows. length row = 20" by simp
  have h2: "120 \<le> length ?rows" by simp
  have col: "map (\<lambda>row. row ! j) ?rows = map real [0..<121]" if "j < 20" for j
    using that by simp
  have a: "map (\<lambda>j. take 120 (map (\<lambda>row. row ! j) ?rows)) [0..<min 19 20] =
      replicate 19 (map real [0..<120])"
  proof -
    have "map (\<lambda>j. take 120 (map (\<lambda>row. row ! j) ?rows)) [0..<19] =
        map (\<lambda>j. map real [0..<120]) [0..<19]"
      by (rule map_cong [OF refl]) (simp add: take_map)
    then show ?thesis by (simp add: map_replicate_const)
  qed
  have b: "map (\<lambda>j. map (\<lambda>row. row ! j) ?rows) [19..<20] = [map real [0..<121]]"
    by (simp add: upt_conv_Cons)
  show ?thesis
    using load_coeffs_flattening [OF h1 h2] unfolding a b by simp
qed

subsection \<open>The regime boundaries 1995.0 and 2020.0\<close>

lemma py_int_unique:
  assumes "of_int k \<le> x" "x < of_int k + 1" "0 \<le> k"
  shows "py_int x = k"
proof -
  have "0 \<le> x" using assms(1,3) by (meson of_int_0_le_iff order_trans)
  moreover have "\<lfloor>x\<rfloor> = k" using assms(1,2) by (simp add: floor_unique)
  ultimately show ?thesis by (simp add: py_int_def)
qed

lemma epoch_params_before_1995:
  assumes "date < 1995" "of_int k \<le> 0.2 * (date - 1900)" "0.2 * (date - 1900) < of_int k + 1"
    "0 \<le> k"
  shows "epoch_params date =
     (0.2 * (date - 1900) - of_int k, 1 - (0.2 * (date - 1900) - of_int k), 120 * k, 10, 120)"
  using assms(1) py_int_unique [OF assms(2-4)] by (simp add: epoch_params_def Let_def)

lemma epoch_params_from_1995:
  assumes "1995 \<le> date" "date < 2020"
    "of_int k \<le> 0.2 * (date - 1900)" "0.2 * (date - 1900) < of_int k + 1" "0 \<le> k"
    "of_int j \<le> 0.2 * (date - 1995)" "0.2 * (date - 1995) < of_int j + 1" "0 \<le> j"
  shows "epoch_params date =
     (0.2 * (date - 1900) - of_int k, 1 - (0.2 * (date - 1900) - of_int k),
      2280 + 195 * j, 13, 195)"
  using assms(1,2) py_int_unique [OF assms(3-5)] py_int_unique [OF assms(6-8)]
  by (simp add: epoch_params_def Let_def)

lemma values_closed_form:
  assumes "1900 \<le> date" "date \<le> 2030" "epoch_params date = (t, tc, int ll, nmx, int nc)"
    "nc = nmx * nmx + 2 * nmx" "1 \<le> ll" "ll + 2 * nc \<le> length gh"
    "1 \<le> n" "n \<le> nmx" "m \<le> n"
  shows "g_value gh date n m = tc * gh ! (ll + g_slot n m) + t * gh ! (ll + g_slot n m + nc)"
    and "1 \<le> m \<Longrightarrow>
      h_value gh date n m = tc * gh ! (ll + h_slot n m) + t * gh ! (ll + h_slot n m + nc)"
proof -
  let ?g = "map (\<lambda>n. g_row gh tc t (int nc) n (int ll - 1 + int n * int n)) [0..<nmx + 1]"
  let ?h = "map (\<lambda>n. h_row gh tc t (int nc) n (int ll - 1 + int n * int n)) [0..<nmx + 1]"
  have len: "int ll + 2 * int nc \<le> int (length gh)"
    using assms(6) by (metis of_nat_add of_nat_le_iff of_nat_mult of_nat_numeral)
  have r: "get_coeffs gh date = Inr (?g, ?h)"
  proof (rule get_coeffs_rows [OF assms(1,2,3)])
    show "int nc = int nmx * int nmx + 2 * int nmx" unfolding assms(4) by simp
    show "- int (length gh) \<le> int ll - 1" using assms(5) by simp
    show "int ll + 2 * int nc \<le> int (length gh)" by (rule len)
  qed
  have nn: "n < nmx + 1" using assms(8) by simp
  have gn: "?g ! n = g_row gh tc t (int nc) n (int ll - 1 + int n * int n)"
    using nn by (simp del: upt_Suc)
  have hn: "?h ! n = h_row gh tc t (int nc) n (int ll - 1 + int n * int n)"
    using nn by (simp del: upt_Suc)
  have n1: "1 \<le> n * n" using assms(7) by (metis mult_le_mono nat_mult_1)
  have gs: "int ll - 1 + int n * int n + (if m = 0 then 0 else 2 * int m - 1) = int (ll + g_slot n m)"
    using n1 assms(5) by (auto simp: g_slot_def)
  have hs: "int ll - 1 + int n * int n + 2 * int m = int (ll + h_slot n m)" if "1 \<le> m"
    using n1 that by (auto simp: h_slot_def)
  have "?g ! n ! m = Some (val gh tc t (int nc) (int ll - 1 + int n * int n + (if m = 0 then 0 else 2 * int m - 1)))"
    unfolding gn using assms(5,7,9) by (intro g_row_nth) auto
  then have gv: "?g ! n ! m = Some (val gh tc t (int nc) (int (ll + g_slot n m)))"
    unfolding gs .
  show "g_value gh date n m = tc * gh ! (ll + g_slot n m) + t * gh ! (ll + g_slot n m + nc)"
    unfolding g_value_def r using gv by (simp add: val_nonneg nat_add_distrib del: upt_Suc)
  show "h_value gh date n m = tc * gh ! (ll + h_slot n m) + t * gh ! (ll + h_slot n m + nc)"
    if m1: "1 \<le> m"
  proof -
    have "?h ! n ! m = Some (val gh tc t (int nc) (int ll - 1 + int n * int n + 2 * int m))"
      unfolding hn using m1 assms(9) by (intro h_row_nth) auto
    then have hv: "?h ! n ! m = Some (val gh tc t (int nc) (int (ll + h_slot n m)))"
      unfolding hs [OF m1] .
    show ?thesis
      unfolding h_value_def r using hv by (simp add: val_nonneg nat_add_distrib del: upt_Suc)
  qed
qed


lemma tendsto_left_agree:
  fixes f p :: "real \<Rightarrow> real"
  assumes "a < x0" "\<And>d. a < d \<Longrightarrow> d < x0 \<Longrightarrow> f d = p d" "isCont p x0"
  shows "(f \<longlongrightarrow> p x0) (at_left x0)"
proof -
  have "(p \<longlongrightarrow> p x0) (at x0)" using assms(3) by (simp add: isCont_def)
  then have lim: "(p \<longlongrightarrow> p x0) (at_left x0)"
    by (rule tendsto_mono [rotated]) (simp add: at_le)
  have "eventually (\<lambda>d. d \<in> {a<..<x0}) (at_left x0)"
    using assms(1) by (rule eventually_at_left_real)
  then have "eventually (\<lambda>d. p d = f d) (at_left x0)"
    by (rule eventually_mono) (simp add: assms(2))
  then show ?thesis using lim by (simp add: tendsto_cong)
qed

lemma tendsto_right_agree:
  fixes f p :: "real \<Rightarrow> real"
  assumes "x0 < b" "\<And>d. x0 < d \<Longrightarrow> d < b \<Longrightarrow> f d = p d" "isCont p x0"
  shows "(f \<longlongrightarrow> p x0) (at_right x0)"
proof -
  have "(p \<longlongrightarrow> p x0) (at x0)" using assms(3) by (simp add: isCont_def)
  then have lim: "(p \<longlongrightarrow> p x0) (at_right x0)"
    by (rule tendsto_mono [rotated]) (simp add: at_le)
  have "eventually (\<lambda>d. d \<in> {x0<..<b}) (at_right x0)"
    using assms(1) by (rule eventually_at_right_real)
  then have "eventually (\<lambda>d. p d = f d) (at_right x0)"
    by (rule eventually_mono) (simp add: assms(2))
  then show ?thesis using lim by (simp add: tendsto_cong)
qed

lemma isCont_from_sides:
  fixes f :: "real \<Rightarrow> real"
  assumes "(f \<longlongrightarrow> f x0) (at_left x0)" "(f \<longlongrightarrow> f x0) (at_right x0)"
  shows "isCont f x0"
  unfolding isCont_def using assms by (rule filterlim_split_at)

text \<open>The two values of a coefficient on the three stretches around 1995.0 and 2020.0.\<close>

lemma values_1990_1995:
  assumes "3645 \<le> length gh" "1 \<le> n" "n \<le> 10" "m \<le> n" "1990 \<le> d" "d < 1995"
  shows "g_value gh d n m =
      (1 - (0.2 * (d - 1900) - 18)) * gh ! (2160 + g_slot n m) +
      (0.2 * (d - 1900) - 18) * gh ! (2160 + g_slot n m + 120)"
    and "1 \<le> m \<Longrightarrow> h_value gh d n m =
      (1 - (0.2 * (d - 1900) - 18)) * gh ! (2160 + h_slot n m) +
      (0.2 * (d - 1900) - 18) * gh ! (2160 + h_slot n m + 120)"
proof -
  have p: "epoch_params d =
      (0.2 * (d - 1900) - 18, 1 - (0.2 * (d - 1900) - 18), int 2160, 10, int 120)"
    using epoch_params_before_1995 [of d 18] assms(5,6) by simp
  show "g_value gh d n m =
      (1 - (0.2 * (d - 1900) - 18)) * gh ! (2160 + g_slot n m) +
      (0.2 * (d - 1900) - 18) * gh ! (2160 + g_slot n m + 120)"
    using assms by (intro values_closed_form(1) [OF _ _ p]) auto
  show "h_value gh d n m =
      (1 - (0.2 * (d - 1900) - 18)) * gh ! (2160 + h_slot n m) +
      (0.2 * (d - 1900) - 18) * gh ! (2160 + h_slot n m + 120)" if "1 \<le> m"
    using assms that by (intro values_closed_form(2) [OF _ _ p]) auto
qed

lemma values_1995_2000:
  assumes "3645 \<le> length gh" "1 \<le> n" "n \<le> 13" "m \<le> n" "1995 \<le> d" "d < 2000"
  shows "g_value gh d n m =
      (1 - (0.2 * (d - 1900) - 19)) * gh ! (2280 + g_slot n m) +
      (0.2 * (d - 1900) - 19) * gh ! (2280 + g_slot n m + 195)"
    and "1 \<le> m \<Longrightarrow> h_value gh d n m =
      (1 - (0.2 * (d - 1900) - 19)) * gh ! (2280 + h_slot n m) +
      (0.2 * (d - 1900) - 19) * gh ! (2280 + h_slot n m + 195)"
proof -
  have p: "epoch_params d =
      (0.2 * (d - 1900) - 19, 1 - (0.2 * (d - 1900) - 19), int 2280, 13, int 195)"
    using epoch_params_from_1995 [of d 19 0] assms(5,6) by simp
  show "g_value gh d n m =
      (1 - (0.2 * (d - 1900) - 19)) * gh ! (2280 + g_slot n m) +
      (0.2 * (d - 1900) - 19) * gh ! (2280 + g_slot n m + 195)"
    using assms by (intro values_closed_form(1) [OF _ _ p]) auto
  show "h_value gh d n m =
      (1 - (0.2 * (d - 1900) - 19)) * gh ! (2280 + h_slot n m) +
      (0.2 * (d - 1900) - 19) * gh ! (2280 + h_slot n m + 195)" if "1 \<le> m"
    using assms that by (intro values_closed_form(2) [OF _ _ p]) auto
qed

lemma values_2015_2020:
  assumes "3645 \<le> length gh" "1 \<le> n" "n \<le> 13" "m \<le> n" "2015 \<le> d" "d < 2020"
  shows "g_value gh d n m =
      (1 - (0.2 * (d - 1900) - 23)) * gh ! (3060 + g_slot n m) +
      (0.2 * (d - 1900) - 23) * gh ! (3060 + g_slot n m + 195)"
    and "1 \<le> m \<Longrightarrow> h_value gh d n m =
      (1 - (0.2 * (d - 1900) - 23)) * gh ! (3060 + h_slot n m) +
      (0.2 * (d - 1900) - 23) * gh ! (3060 + h_slot n m + 195)"
proof -
  have p: "epoch_params d =
      (0.2 * (d - 1900) - 23, 1 - (0.2 * (d - 1900) - 23), int 3060, 13, int 195)"
    using epoch_params_from_1995 [of d 23 4] assms(5,6) by simp
  show "g_value gh d n m =
      (1 - (0.2 * (d - 1900) - 23)) * gh ! (3060 + g_slot n m) +
      (0.2 * (d - 1900) - 23) * gh ! (3060 + g_slot n m + 195)"
    using assms by (intro values_closed_form(1) [OF _ _ p]) auto
  show "h_value gh d n m =
      (1 - (0.2 * (d - 1900) - 23)) * gh ! (3060 + h_slot n m) +
      (0.2 * (d - 1900) - 23) * gh ! (3060 + h_slot n m + 195)" if "1 \<le> m"
    using assms that by (intro values_closed_form(2) [OF _ _ p]) auto
qed

lemma values_2020_2030:
  assumes "3645 \<le> length gh" "1 \<le> n" "n \<le> 13" "m \<le> n" "2020 \<le> d" "d \<le> 2030"
  shows "g_value gh d n m =
      1 * gh ! (3255 + g_slot n m) + (d - 2020) * gh ! (3255 + g_slot n m + 195)"
    and "1 \<le> m \<Longrightarrow> h_value gh d n m =
      1 * gh ! (3255 + h_slot n m) + (d - 2020) * gh ! (3255 + h_slot n m + 195)"
proof -
  have p: "epoch_params d = (d - 2020, 1, int 3255, 13, int 195)"
    using epoch_params_2020 [of d] assms(5) by simp
  show "g_value gh d n m =
      1 * gh ! (3255 + g_slot n m) + (d - 2020) * gh ! (3255 + g_slot n m + 195)"
    using assms by (intro values_closed_form(1) [OF _ _ p]) auto
  show "h_value gh d n m =
      1 * gh ! (3255 + h_slot n m) + (d - 2020) * gh ! (3255 + h_slot n m + 195)" if "1 \<le> m"
    using assms that by (intro values_closed_form(2) [OF _ _ p]) auto
qed


lemma g_value_at_1995:
  assumes len: "3645 \<le> length gh" and n1: "1 \<le> n" and nn: "n \<le> 10" and mn: "m \<le> n"
  shows "g_value gh 1995 n m = gh ! (2280 + g_slot n m)"
    and "((\<lambda>d. g_value gh d n m) \<longlongrightarrow> g_value gh 1995 n m) (at_left 1995)"
    and "isCont (\<lambda>d. g_value gh d n m) 1995"
proof -
  have n13: "n \<le> 13" using nn by simp
  show v: "g_value gh 1995 n m = gh ! (2280 + g_slot n m)"
    using values_1995_2000(1) [OF len n1 n13 mn, of 1995] by simp
  have e: "2160 + g_slot n m + 120 = 2280 + g_slot n m" by simp
  have "((\<lambda>d. g_value gh d n m) \<longlongrightarrow>
      (\<lambda>d. (1 - (0.2 * (d - 1900) - 18)) * gh ! (2160 + g_slot n m) + (0.2 * (d - 1900) - 18) * gh ! (2160 + g_slot n m + 120)) 1995) (at_left 1995)"
  proof (rule tendsto_left_agree [where p = "\<lambda>d. (1 - (0.2 * (d - 1900) - 18)) * gh ! (2160 + g_slot n m) + (0.2 * (d - 1900) - 18) * gh ! (2160 + g_slot n m + 120)", of 1990 1995])
    show "(1990::real) < 1995" by simp
    show "g_value gh d n m = (\<lambda>d. (1 - (0.2 * (d - 1900) - 18)) * gh ! (2160 + g_slot n m) + (0.2 * (d - 1900) - 18) * gh ! (2160 + g_slot n m + 120)) d" if "1990 < d" "d < 1995" for d
      using values_1990_1995(1) [OF len n1 nn mn, of d] that by simp
    show "isCont (\<lambda>d. (1 - (0.2 * (d - 1900) - 18)) * gh ! (2160 + g_slot n m) + (0.2 * (d - 1900) - 18) * gh ! (2160 + g_slot n m + 120)) 1995"
      by (intro continuous_intros)
  qed
  then show l: "((\<lambda>d. g_value gh d n m) \<longlongrightarrow> g_value gh 1995 n m) (at_left 1995)"
    unfolding v e by simp
  have "((\<lambda>d. g_value gh d n m) \<longlongrightarrow>
      (\<lambda>d. (1 - (0.2 * (d - 1900) - 19)) * gh ! (2280 + g_slot n m) + (0.2 * (d - 1900) - 19) * gh ! (2280 + g_slot n m + 195)) 1995) (at_right 1995)"
  proof (rule tendsto_right_agree [where p = "\<lambda>d. (1 - (0.2 * (d - 1900) - 19)) * gh ! (2280 + g_slot n m) + (0.2 * (d - 1900) - 19) * gh ! (2280 + g_slot n m + 195)", of 1995 2000])
    show "(1995::real) < 2000" by simp
    show "g_value gh d n m = (\<lambda>d. (1 - (0.2 * (d - 1900) - 19)) * gh ! (2280 + g_slot n m) + (0.2 * (d - 1900) - 19) * gh ! (2280 + g_slot n m + 195)) d" if "1995 < d" "d < 2000" for d
      using values_1995_2000(1) [OF len n1 n13 mn, of d] that by simp
    show "isCont (\<lambda>d. (1 - (0.2 * (d - 1900) - 19)) * gh ! (2280 + g_slot n m) + (0.2 * (d - 1900) - 19) * gh ! (2280 + g_slot n m + 195)) 1995"
      by (intro continuous_intros)
  qed
  then have r: "((\<lambda>d. g_value gh d n m) \<longlongrightarrow> g_value gh 1995 n m) (at_right 1995)"
    unfolding v by simp
  show "isCont (\<lambda>d. g_value gh d n m) 1995"
    using l r by (rule isCont_from_sides)
qed

lemma g_value_at_2020:
  assumes len: "3645 \<le> length gh" and n1: "1 \<le> n" and nn: "n \<le> 13" and mn: "m \<le> n"
  shows "g_value gh 2020 n m = gh ! (3255 + g_slot n m)"
    and "((\<lambda>d. g_value gh d n m) \<longlongrightarrow> g_value gh 2020 n m) (at_left 2020)"
    and "isCont (\<lambda>d. g_value gh d n m) 2020"
proof -
  have n13: "n \<le> 13" using nn by simp
  show v: "g_value gh 2020 n m = gh ! (3255 + g_slot n m)"
    using values_2020_2030(1) [OF len n1 n13 mn, of 2020] by simp
  have e: "3060 + g_slot n m + 195 = 3255 + g_slot n m" by simp
  have "((\<lambda>d. g_value gh d n m) \<longlongrightarrow>
      (\<lambda>d. (1 - (0.2 * (d - 1900) - 23)) * gh ! (3060 + g_slot n m) + (0.2 * (d - 1900) - 23) * gh ! (3060 + g_slot n m + 195)) 2020) (at_left 2020)"
  proof (rule tendsto_left_agree [where p = "\<lambda>d. (1 - (0.2 * (d - 1900) - 23)) * gh ! (3060 + g_slot n m) + (0.2 * (d - 1900) - 23) * gh ! (3060 + g_slot n m + 195)", of 2015 2020])
    show "(2015::real) < 2020" by simp
    show "g_value gh d n m = (\<lambda>d. (1 - (0.2 * (d - 1900) - 23)) * gh ! (3060 + g_slot n m) + (0.2 * (d - 1900) - 23) * gh ! (3060 + g_slot n m + 195)) d" if "2015 < d" "d < 2020" for d
      using values_2015_2020(1) [OF len n1 nn mn, of d] that by simp
    show "isCont (\<lambda>d. (1 - (0.2 * (d - 1900) - 23)) * gh ! (3060 + g_slot n m) + (0.2 * (d - 1900) - 23) * gh ! (3060 + g_slot n m + 195)) 2020"
      by (intro continuous_intros)
  qed
  then show l: "((\<lambda>d. g_value gh d n m) \<longlongrightarrow> g_value gh 2020 n m) (at_left 2020)"
    unfolding v e by simp
  have "((\<lambda>d. g_value gh d n m) \<longlongrightarrow>
      (\<lambda>d. 1 * gh ! (3255 + g_slot n m) + (d - 2020) * gh ! (3255 + g_slot n m + 195)) 2020) (at_right 2020)"
  proof (rule tendsto_right_agree [where p = "\<lambda>d. 1 * gh ! (3255 + g_slot n m) + (d - 2020) * gh ! (3255 + g_slot n m + 195)", of 2020 2030])
    show "(2020::real) < 2030" by simp
    show "g_value gh d n m = (\<lambda>d. 1 * gh ! (3255 + g_slot n m) + (d - 2020) * gh ! (3255 + g_slot n m + 195)) d" if "2020 < d" "d < 2030" for d
      using values_2020_2030(1) [OF len n1 n13 mn, of d] that by simp
    show "isCont (\<lambda>d. 1 * gh ! (3255 + g_slot n m) + (d - 2020) * gh ! (3255 + g_slot n m + 195)) 2020"
      by (intro continuous_intros)
  qed
  then have r: "((\<lambda>d. g_value gh d n m) \<longlongrightarrow> g_value gh 2020 n m) (at_right 2020)"
    unfolding v by simp
  show "isCont (\<lambda>d. g_value gh d n m) 2020"
    using l r by (rule isCont_from_sides)
qed

lemma h_value_at_1995:
  assumes len: "3645 \<le> length gh" and n1: "1 \<le> n" and nn: "n \<le> 10" and mn: "m \<le> n" and m1: "1 \<le> m"
  shows "h_value gh 1995 n m = gh ! (2280 + h_slot n m)"
    and "((\<lambda>d. h_value gh d n m) \<longlongrightarrow> h_value gh 1995 n m) (at_left 1995)"
    and "isCont (\<lambda>d. h_value gh d n m) 1995"
proof -
  have n13: "n \<le> 13" using nn by simp
  show v: "h_value gh 1995 n m = gh ! (2280 + h_slot n m)"
    using values_1995_2000(2) [OF len n1 n13 mn, of 1995] m1 by simp
  have e: "2160 + h_slot n m + 120 = 2280 + h_slot n m" by simp
  have "((\<lambda>d. h_value gh d n m) \<longlongrightarrow>
      (\<lambda>d. (1 - (0.2 * (d - 1900) - 18)) * gh ! (2160 + h_slot n m) + (0.2 * (d - 1900) - 18) * gh ! (2160 + h_slot n m + 120)) 1995) (at_left 1995)"
  proof (rule tendsto_left_agree [where p = "\<lambda>d. (1 - (0.2 * (d - 1900) - 18)) * gh ! (2160 + h_slot n m) + (0.2 * (d - 1900) - 18) * gh ! (2160 + h_slot n m + 120)", of 1990 1995])
    show "(1990::real) < 1995" by simp
    show "h_value gh d n m = (\<lambda>d. (1 - (0.2 * (d - 1900) - 18)) * gh ! (2160 + h_slot n m) + (0.2 * (d - 1900) - 18) * gh ! (2160 + h_slot n m + 120)) d" if "1990 < d" "d < 1995" for d
      using values_1990_1995(2) [OF len n1 nn mn, of d] that m1 by simp
    show "isCont (\<lambda>d. (1 - (0.2 * (d - 1900) - 18)) * gh ! (2160 + h_slot n m) + (0.2 * (d - 1900) - 18) * gh ! (2160 + h_slot n m + 120)) 1995"
      by (intro continuous_intros)
  qed
  then show l: "((\<lambda>d. h_value gh d n m) \<longlongrightarrow> h_value gh 1995 n m) (at_left 1995)"
    unfolding v e by simp
  have "((\<lambda>d. h_value gh d n m) \<longlongrightarrow>
      (\<lambda>d. (1 - (0.2 * (d - 1900) - 19)) * gh ! (2280 + h_slot n m) + (0.2 * (d - 1900) - 19) * gh ! (2280 + h_slot n m + 195)) 1995) (at_right 1995)"
  proof (rule tendsto_right_agree [where p = "\<lambda>d. (1 - (0.2 * (d - 1900) - 19)) * gh ! (2280 + h_slot n m) + (0.2 * (d - 1900) - 19) * gh ! (2280 + h_slot n m + 195)", of 1995 2000])
    show "(1995::real) < 2000" by simp
    show "h_value gh d n m = (\<lambda>d. (1 - (0.2 * (d - 1900) - 19)) * gh ! (2280 + h_slot n m) + (0.2 * (d - 1900) - 19) * gh ! (2280 + h_slot n m + 195)) d" if "1995 < d" "d < 2000" for d
      using values_1995_2000(2) [OF len n1 n13 mn, of d] that m1 by simp
    show "isCont (\<lambda>d. (1 - (0.2 * (d - 1900) - 19)) * gh ! (2280 + h_slot n m) + (0.2 * (d - 1900) - 19) * gh ! (2280 + h_slot n m + 195)) 1995"
      by (intro continuous_intros)
  qed
  then have r: "((\<lambda>d. h_value gh d n m) \<longlongrightarrow> h_value gh 1995 n m) (at_right 1995)"
    unfolding v by simp
  show "isCont (\<lambda>d. h_value gh d n m) 1995"
    using l r by (rule isCont_from_sides)
qed

lemma h_value_at_2020:
  assumes len: "3645 \<le> length gh" and n1: "1 \<le> n" and nn: "n \<le> 13" and mn: "m \<le> n" and m1: "1 \<le> m"
  shows "h_value gh 2020 n m = gh ! (3255 + h_slot n m)"
    and "((\<lambda>d. h_value gh d n m) \<longlongrightarrow> h_value gh 2020 n m) (at_left 2020)"
    and "isCont (\<lambda>d. h_value gh d n m) 2020"
proof -
  have n13: "n \<le> 13" using nn by simp
  show v: "h_value gh 2020 n m = gh ! (3255 + h_slot n m)"
    using values_2020_2030(2) [OF len n1 n13 mn, of 2020] m1 by simp
  have e: "3060 + h_slot n m + 195 = 3255 + h_slot n m" by simp
  have "((\<lambda>d. h_value gh d n m) \<longlongrightarrow>
      (\<lambda>d. (1 - (0.2 * (d - 1900) - 23)) * gh ! (3060 + h_slot n m) + (0.2 * (d - 1900) - 23) * gh ! (3060 + h_slot n m + 195)) 2020) (at_left 2020)"
  proof (rule tendsto_left_agree [where p = "\<lambda>d. (1 - (0.2 * (d - 1900) - 23)) * gh ! (3060 + h_slot n m) + (0.2 * (d - 1900) - 23) * gh ! (3060 + h_slot n m + 195)", of 2015 2020])
    show "(2015::real) < 2020" by simp
    show "h_value gh d n m = (\<lambda>d. (1 - (0.2 * (d - 1900) - 23)) * gh ! (3060 + h_slot n m) + (0.2 * (d - 1900) - 23) * gh ! (3060 + h_slot n m + 195)) d" if "2015 < d" "d < 2020" for d
      using values_2015_2020(2) [OF len n1 nn mn, of d] that m1 by simp
    show "isCont (\<lambda>d. (1 - (0.2 * (d - 1900) - 23)) * gh ! (3060 + h_slot n m) + (0.2 * (d - 1900) - 23) * gh ! (3060 + h_slot n m + 195)) 2020"
      by (intro continuous_intros)
  qed
  then show l: "((\<lambda>d. h_value gh d n m) \<longlongrightarrow> h_value gh 2020 n m) (at_left 2020)"
    unfolding v e by simp
  have "((\<lambda>d. h_value gh d n m) \<longlongrightarrow>
      (\<lambda>d. 1 * gh ! (3255 + h_slot n m) + (d - 2020) * gh ! (3255 + h_slot n m + 195)) 2020) (at_right 2020)"
  proof (rule tendsto_right_agree [where p = "\<lambda>d. 1 * gh ! (3255 + h_slot n m) + (d - 2020) * gh ! (3255 + h_slot n m + 195)", of 2020 2030])
    show "(2020::real) < 2030" by simp
    show "h_value gh d n m = (\<lambda>d. 1 * gh ! (3255 + h_slot n m) + (d - 2020) * gh ! (3255 + h_slot n m + 195)) d" if "2020 < d" "d < 2030" for d
      using values_2020_2030(2) [OF len n1 n13 mn, of d] that m1 by simp
    show "isCont (\<lambda>d. 1 * gh ! (3255 + h_slot n m) + (d - 2020) * gh ! (3255 + h_slot n m + 195)) 2020"
      by (intro continuous_intros)
  qed
  then have r: "((\<lambda>d. h_value gh d n m) \<longlongrightarrow> h_value gh 2020 n m) (at_right 2020)"
    unfolding v by simp
  show "isCont (\<lambda>d. h_value gh d n m) 2020"
    using l r by (rule isCont_from_sides)
qed


text \<open>
  Claim C4. On a table of at least 3645 values, the value of every coefficient \<open>g[n][m]\<close>
  and \<open>h[n][m]\<close> (\<open>h\<close> for \<open>m \<ge> 1\<close>) of degree 1 to 10, as computed by the formula for dates
  before 1995.0, tends to the value computed at the date 1995.0 by the degree 13 formula
  when the date tends to 1995.0 from below; for degree 1 to 13 the value computed for dates
  before 2020.0 tends to the value that the extrapolation branch computes at 2020.0. Both
  values are the entry of the block that starts at 2280, respectively 3255, and the
  coefficient is a continuous function of the date at both boundaries.
\<close>

theorem get_coeffs_continuous_at_regime_boundaries:
  assumes "3645 \<le> length gh" "1 \<le> n" "m \<le> n"
  shows
    "(n \<le> 10 \<longrightarrow>
        ((\<lambda>d. g_value gh d n m) \<longlongrightarrow> g_value gh 1995 n m) (at_left 1995) \<and>
        isCont (\<lambda>d. g_value gh d n m) 1995 \<and>
        g_value gh 1995 n m = gh ! (2280 + g_slot n m) \<and>
        (1 \<le> m \<longrightarrow>
           ((\<lambda>d. h_value gh d n m) \<longlongrightarrow> h_value gh 1995 n m) (at_left 1995) \<and>
           isCont (\<lambda>d. h_value gh d n m) 1995 \<and>
           h_value gh 1995 n m = gh ! (2280 + h_slot n m))) \<and>
     (n \<le> 13 \<longrightarrow>
        ((\<lambda>d. g_value gh d n m) \<longlongrightarrow> g_value gh 2020 n m) (at_left 2020) \<and>
        isCont (\<lambda>d. g_value gh d n m) 2020 \<and>
        g_value gh 2020 n m = gh ! (3255 + g_slot n m) \<and>
        (1 \<le> m \<longrightarrow>
           ((\<lambda>d. h_value gh d n m) \<longlongrightarrow> h_value gh 2020 n m) (at_left 2020) \<and>
           isCont (\<lambda>d. h_value gh d n m) 2020 \<and>
           h_value gh 2020 n m = gh ! (3255 + h_slot n m)))"
  using g_value_at_1995 [OF assms(1,2) _ assms(3)] h_value_at_1995 [OF assms(1,2) _ assms(3)]
    g_value_at_2020 [OF assms(1,2) _ assms(3)] h_value_at_2020 [OF assms(1,2) _ assms(3)]
  by blast

theorem get_coeffs_continuous_at_regime_boundaries_witness:
  "((\<lambda>d. g_value (map real [0..<3646]) d 1 1) \<longlongrightarrow> 2281) (at_left 1995) \<and>
   g_value (map real [0..<3646]) 1995 1 1 = 2281 \<and>
   ((\<lambda>d. h_value (map real [0..<3646]) d 1 1) \<longlongrightarrow> 2282) (at_left 1995) \<and>
   h_value (map real [0..<3646]) 1995 1 1 = 2282 \<and>
   ((\<lambda>d. g_value (map real [0..<3646]) d 1 1) \<longlongrightarrow> 3256) (at_left 2020) \<and>
   g_value (map real [0..<3646]) 2020 1 1 = 3256 \<and>
   ((\<lambda>d. h_value (map real [0..<3646]) d 1 1) \<longlongrightarrow> 3257) (at_left 2020) \<and>
   h_value (map real [0..<3646]) 2020 1 1 = 3257"
  using get_coeffs_continuous_at_regime_boundaries [of "map real [0..<3646]" 1 1]
  by (auto simp: g_slot_def h_slot_def)

section \<open>Properties of coord\_transforms.py\<close>

subsection \<open>The centered dipole north pole\<close>

lemma degree_loop_extends:
  "degree_loop gh tc t nc ns (g, h, temp) = Inr (g', h', temp') \<Longrightarrow>
   \<exists>gs hs. g' = g @ gs \<and> h' = h @ hs"
proof (induction ns arbitrary: g h temp)
  case Nil
  then show ?case by simp
next
  case (Cons n ns)
  from Cons.prems obtain gn hn t1 where
    "degree_loop gh tc t nc ns (g @ [gn], h @ [hn], t1) = Inr (g', h', temp')"
    by (auto split: sum.splits prod.splits)
  from Cons.IH [OF this] show ?case by auto
qed

lemma epoch_params_degree:
  "\<exists>t tc ll nmx nc. epoch_params date = (t, tc, ll, nmx, nc) \<and> 1 \<le> nmx"
  by (simp add: epoch_params_def Let_def)

lemma degree_loop_first_rows:
  assumes "degree_loop gh tc t nc [0..<nmx + 1] ([], [], temp) = Inr (g, h, temp')" "1 \<le> nmx"
  shows "\<exists>a b c. g ! 1 = [Some a, Some b] \<and> h ! 1 = [None, Some c] \<and>
    2 \<le> length g \<and> 2 \<le> length h"
proof -
  have sp: "[0..<nmx + 1] = 0 # 1 # [2..<nmx + 1]"
    using assms(2) by (simp add: upt_conv_Cons numeral_2_eq_2 del: upt_Suc)
  have u1: "[0..<0 + 1] = [0::nat]" by simp
  have u2: "[0..<1 + 1] = [0::nat, 1]" by (simp add: upt_conv_Cons)
  from assms(1) obtain j a b c t2 where
    rest: "degree_loop gh tc t nc [2..<nmx + 1]
       ([[None, Some j], [Some a, Some b]], [[None], [None, Some c]], t2) = Inr (g, h, temp')"
    unfolding sp degree_loop.simps u1 u2 order_loop.simps
    by (auto split: sum.splits prod.splits if_splits)
  from degree_loop_extends [OF rest] obtain gs hs where
    "g = [[None, Some j], [Some a, Some b]] @ gs" "h = [[None], [None, Some c]] @ hs"
    by auto
  then show ?thesis by auto
qed

lemma get_coeffs_first_degree:
  assumes "get_coeffs gh year = Inr (g, h)" "g \<noteq> []"
  shows "\<exists>a b c. g ! 1 = [Some a, Some b] \<and> h ! 1 = [None, Some c] \<and>
    2 \<le> length g \<and> 2 \<le> length h"
proof -
  have rng: "\<not> (year < 1900 \<or> year > 2030)"
    using assms by (auto simp: get_coeffs_def)
  obtain t tc ll nmx nc where p: "epoch_params year = (t, tc, ll, nmx, nc)" and n: "1 \<le> nmx"
    using epoch_params_degree by blast
  from assms(1) rng p obtain temp' where
    "degree_loop gh tc t nc [0..<nmx + 1] ([], [], ll - 1) = Inr (g, h, temp')"
    by (auto simp: get_coeffs_def split: sum.splits prod.splits)
  from degree_loop_first_rows [OF this n] show ?thesis .
qed

lemma coeff_entry_Some:
  assumes "n < length g" "m < length (g ! n)" "g ! n ! m = Some v"
  shows "coeff_entry g (int n) (int m) = Inr v"
proof -
  have "py_index g (int n) = Inr (g ! n)" using assms(1) by (simp add: py_index_def)
  moreover have "py_index (g ! n) (int m) = Inr (Some v)"
    using assms(2,3) by (simp add: py_index_def)
  ultimately show ?thesis by (simp add: coeff_entry_def)
qed

lemma arccos_ratio_bounds:
  assumes "sqrt (a\<^sup>2 + b\<^sup>2 + c\<^sup>2) \<noteq> 0"
  shows "0 \<le> arccos (- a / sqrt (a\<^sup>2 + b\<^sup>2 + c\<^sup>2))"
    and "arccos (- a / sqrt (a\<^sup>2 + b\<^sup>2 + c\<^sup>2)) \<le> pi"
proof -
  let ?r = "sqrt (a\<^sup>2 + b\<^sup>2 + c\<^sup>2)"
  have r: "0 < ?r" using assms by (simp add: less_le)
  have "a\<^sup>2 \<le> ?r\<^sup>2" by simp
  then have "\<bar>a\<bar> \<le> ?r" using r by (metis abs_le_square_iff abs_of_pos)
  then have "\<bar>- a / ?r\<bar> \<le> 1" using r by simp
  then have b: "- 1 \<le> - a / ?r" "- a / ?r \<le> 1" by linarith+
  show "0 \<le> arccos (- a / ?r)" using b by (rule arccos_lbound)
  show "arccos (- a / ?r) \<le> pi" using b by (rule arccos_ubound)
qed

lemma arctan2_bounds: "- pi < arctan2 y x" "arctan2 y x \<le> pi"
proof -
  have lb: "- (pi / 2) < arctan (y / x)" and ub: "arctan (y / x) < pi / 2"
    by (rule arctan_lbound, rule arctan_ubound)
  have neg: "arctan (y / x) \<le> 0" if "x < 0" "0 \<le> y"
  proof -
    have "y / x \<le> 0" using that by (simp add: divide_nonneg_neg)
    then show ?thesis using arctan_monotone' [of "y / x" 0] by simp
  qed
  have pos: "0 < arctan (y / x)" if "x < 0" "y < 0"
  proof -
    have "0 < y / x" using that by (simp add: divide_neg_neg)
    then show ?thesis using arctan_monotone [of 0 "y / x"] by simp
  qed
  have p: "0 < pi" by simp
  show "- pi < arctan2 y x"
    using lb ub neg pos p by (auto simp: arctan2_def)
  show "arctan2 y x \<le> pi"
    using lb ub neg pos p by (auto simp: arctan2_def)
qed


text \<open>
  Claim C6. When \<open>get_coeffs\<close> returns coefficients that are not empty for the year, the
  three coefficients \<open>g[1][0]\<close>, \<open>g[1][1]\<close> and \<open>h[1][1]\<close> are numbers and, with
  \<open>B0 = sqrt(g10^2 + g11^2 + h11^2)\<close> not zero, \<open>compute_pos_centered_dipole_north_pole\<close>
  returns \<open>(arccos(-g10 / B0), arctan2(h11, g11) - \<pi>)\<close>; the colatitude lies in \<open>[0, \<pi>]\<close>
  and the longitude in \<open>(-2\<pi>, 0]\<close>, the range of \<open>arctan2\<close> shifted by \<open>\<pi>\<close> and not brought
  into \<open>[0, 2\<pi>)\<close>. (With the three coefficients all zero the colatitude is NaN.)
\<close>

theorem dipole_north_pole_formula:
  assumes "get_coeffs (GH C) year = Inr (g, h)" "g \<noteq> []"
  shows "\<exists>g10 g11 h11.
     g ! 1 ! 0 = Some g10 \<and> g ! 1 ! 1 = Some g11 \<and> h ! 1 ! 1 = Some h11 \<and>
     (if sqrt (g10\<^sup>2 + g11\<^sup>2 + h11\<^sup>2) = 0
      then compute_pos_centered_dipole_north_pole C year = Inl FloatingPointNaN
      else compute_pos_centered_dipole_north_pole C year =
             Inr (arccos (- g10 / sqrt (g10\<^sup>2 + g11\<^sup>2 + h11\<^sup>2)), arctan2 h11 g11 - pi) \<and>
           0 \<le> arccos (- g10 / sqrt (g10\<^sup>2 + g11\<^sup>2 + h11\<^sup>2)) \<and>
           arccos (- g10 / sqrt (g10\<^sup>2 + g11\<^sup>2 + h11\<^sup>2)) \<le> pi \<and>
           - (2 * pi) < arctan2 h11 g11 - pi \<and>
           arctan2 h11 g11 - pi \<le> 0)"
proof -
  from get_coeffs_first_degree [OF assms] obtain a b c where
    rows: "g ! 1 = [Some a, Some b]" "h ! 1 = [None, Some c]" and
    len: "2 \<le> length g" "2 \<le> length h"
    by blast
  have e1: "coeff_entry g 1 0 = Inr a"
    using coeff_entry_Some [of 1 g 0 a] rows len by simp
  have e2: "coeff_entry g 1 1 = Inr b"
    using coeff_entry_Some [of 1 g 1 b] rows len by simp
  have e3: "coeff_entry h 1 1 = Inr c"
    using coeff_entry_Some [of 1 h 1 c] rows len by simp
  have val: "compute_pos_centered_dipole_north_pole C year =
      (if sqrt (a\<^sup>2 + b\<^sup>2 + c\<^sup>2) = 0 then Inl FloatingPointNaN
       else Inr (arccos (- a / sqrt (a\<^sup>2 + b\<^sup>2 + c\<^sup>2)), arctan2 c b - pi))"
    using assms(2) by (simp add: compute_pos_centered_dipole_north_pole_def assms(1) e1 e2 e3 Let_def)
  have "- (2 * pi) < arctan2 c b - pi" "arctan2 c b - pi \<le> 0"
    using arctan2_bounds [of c b] by simp_all
  then show ?thesis
    using rows val arccos_ratio_bounds [of a b c]
    by (intro exI [of _ a] exI [of _ b] exI [of _ c]) simp
qed

lemma example_GH_length: "length example_GH = 3646"
  by (simp add: example_GH_def)

lemma example_GH_nth:
  "i < 3646 \<Longrightarrow> example_GH ! i = (if i = 3255 then - 1 else 0)"
  by (auto simp: example_GH_def nth_append)

lemma example_coeffs_2021:
  "\<exists>g h. get_coeffs example_GH 2021 = Inr (g, h) \<and> g \<noteq> [] \<and>
     g ! 1 ! 0 = Some (- 1) \<and> g ! 1 ! 1 = Some 0 \<and> h ! 1 ! 1 = Some 0"
  using get_coeffs_from_2020 [of 2021 example_GH 1 0]
    get_coeffs_from_2020 [of 2021 example_GH 1 1]
  by (auto simp: example_GH_length example_GH_nth g_slot_def h_slot_def)

theorem dipole_north_pole_formula_witness:
  "compute_pos_centered_dipole_north_pole example_constants 2021 = Inr (0, - pi)"
proof -
  obtain g h where c: "get_coeffs (GH example_constants) 2021 = Inr (g, h)" "g \<noteq> []"
    and v: "g ! 1 ! 0 = Some (- 1)" "g ! 1 ! 1 = Some 0" "h ! 1 ! 1 = Some 0"
    using example_coeffs_2021 by (auto simp: example_constants_def)
  from dipole_north_pole_formula [OF c] v show ?thesis
    by (auto simp: arctan2_def)
qed

subsection \<open>Output shapes\<close>

lemma map_err_length:
  "map_err f xs = Inr ys \<Longrightarrow> length ys = length xs"
proof (induction xs arbitrary: ys)
  case Nil
  then show ?case by simp
next
  case (Cons x xs)
  then show ?case by (auto split: sum.splits)
qed

lemma items_as_arrays: "as_arrays v = items v"
  by (cases v) (simp_all add: as_arrays_def items_def)

lemma ecef2eccdf_shape:
  assumes "ecef2eccdf C v year = Inr out"
  shows "\<exists>xs. out = NdArray xs \<and> length xs = length (items v)"
  using assms
  by (auto simp: ecef2eccdf_def Let_def items_as_arrays split: sum.splits prod.splits)

lemma eccdf2ecef_shape:
  assumes "eccdf2ecef C v year = Inr out"
  shows "\<exists>xs. out = NdArray xs \<and> length xs = length (items v)"
  using assms
  by (auto simp: eccdf2ecef_def Let_def items_as_arrays split: sum.splits prod.splits)

lemma geodetic2cd_shape:
  assumes "geodetic2cd C P gg decimals year = Inr out"
  shows "\<exists>xs. out = NdArray xs \<and> length xs = length (items gg)"
proof -
  let ?geoc = "map (\<lambda>(gglat_deg, gglon_deg, ggalt_km).
      pm_geodetic2ecef P (gglat_deg, gglon_deg, ggalt_km * 1000)) (as_arrays gg)"
  from assms obtain cd sph where
    cd: "ecef2eccdf C (NdArray ?geoc) year = Inr cd" and
    sph: "map_err (\<lambda>p. ecef2spherical p 2) (items cd) = Inr sph" and
    out: "out = NdArray (map (\<lambda>(colat_cd, long_cd, r_cd).
        (np_round (90 - colat_cd) decimals, long_cd, np_round (r_cd - RE_M C) decimals)) sph)"
    by (auto simp: geodetic2cd_def Let_def split: sum.splits)
  from ecef2eccdf_shape [OF cd] have "length (items cd) = length (items gg)"
    by (auto simp: items_def items_as_arrays)
  with map_err_length [OF sph] out show ?thesis by simp
qed

lemma items_map_pyval: "length (items (map_pyval f v)) = length (items v)"
  by (cases v) (simp_all add: items_def)

lemma cd2geodetic_shape:
  assumes "cd2geodetic C P cd decimals year = Inr out"
  shows "\<exists>xs. out = NdArray xs \<and> length xs = length (items cd)"
proof -
  let ?cart = "map_pyval (\<lambda>(lat_cd, lon_cd, alt_cd).
      spherical2ecef (deg2rad (90 - lat_cd), deg2rad lon_cd, alt_cd + RE_M C)) cd"
  from assms obtain geoc where
    g: "eccdf2ecef C ?cart year = Inr geoc" and
    out: "out = NdArray (map (\<lambda>p. (case pm_ecef2geodetic P p of
        (lat_geoc, long_geoc, alt_geoc) \<Rightarrow>
          (np_round lat_geoc decimals, np_round long_geoc decimals,
           np_round alt_geoc decimals))) (items geoc))"
    by (cases cd) (auto simp: cd2geodetic_def Let_def split: sum.splits)
  from eccdf2ecef_shape [OF g] have "length (items geoc) = length (items cd)"
    by (auto simp: items_map_pyval) (simp add: items_def)
  with out show ?thesis by simp
qed

lemma mlon2mlt_form:
  assumes "mlon2mlt C P mlon_cd t h = Inr out"
  shows "\<exists>sslon_cd. out = NdArray (map (\<lambda>mlon. np_mod ((180 + mlon - sslon_cd) / 15) 24)
      (items mlon_cd))"
  using assms
  by (auto simp: mlon2mlt_def items_as_arrays split: sum.splits prod.splits list.splits)

lemma subsol_shape:
  "subsol (Scalar t) = Inr out \<Longrightarrow> \<exists>p. out = Scalar p"
  "subsol (NdArray ts) = Inr out \<Longrightarrow> \<exists>ps. out = NdArray ps \<and> length ps = length ts"
  by (auto simp: subsol_def split: if_splits)

subsection \<open>The transforms on the example constants\<close>

lemma pole_from_entries:
  assumes "get_coeffs (GH C) year = Inr (g, h)" "g \<noteq> []"
    "g ! 1 ! 0 = Some a" "g ! 1 ! 1 = Some b" "h ! 1 ! 1 = Some c"
  shows "compute_pos_centered_dipole_north_pole C year =
      (if sqrt (a\<^sup>2 + b\<^sup>2 + c\<^sup>2) = 0 then Inl FloatingPointNaN
       else Inr (arccos (- a / sqrt (a\<^sup>2 + b\<^sup>2 + c\<^sup>2)), arctan2 c b - pi))"
proof -
  from get_coeffs_first_degree [OF assms(1,2)] obtain a' b' c' where
    rows: "g ! 1 = [Some a', Some b']" "h ! 1 = [None, Some c']" and
    len: "2 \<le> length g" "2 \<le> length h"
    by blast
  have e1: "coeff_entry g 1 0 = Inr a"
    using coeff_entry_Some [of 1 g 0 a] rows len assms(3) by simp
  have e2: "coeff_entry g 1 1 = Inr b"
    using coeff_entry_Some [of 1 g 1 b] rows len assms(4) by simp
  have e3: "coeff_entry h 1 1 = Inr c"
    using coeff_entry_Some [of 1 h 1 c] rows len assms(5) by simp
  show ?thesis
    using assms(2) by (simp add: compute_pos_centered_dipole_north_pole_def assms(1) e1 e2 e3 Let_def)
qed

lemma example_pole:
  "compute_pos_centered_dipole_north_pole example_constants 2021 = Inr (0, - pi)"
proof -
  obtain g h where c: "get_coeffs (GH example_constants) 2021 = Inr (g, h)" "g \<noteq> []"
    and v: "g ! 1 ! 0 = Some (- 1)" "g ! 1 ! 1 = Some 0" "h ! 1 ! 1 = Some 0"
    using example_coeffs_2021 by (auto simp: example_constants_def)
  show ?thesis
    unfolding pole_from_entries [OF c v] by (simp add: arctan2_def)
qed

lemma example_base_vectors:
  "cd_base_vectors 0 (- pi) = ((- 1, 0, 0), (0, - 1, 0), (0, 0, 1))"
  by (simp add: cd_base_vectors_def)

lemma example_ecef2eccdf:
  "ecef2eccdf example_constants v 2021 =
     Inr (NdArray (map (\<lambda>(x, y, z). (- x, - y, z)) (items v)))"
  by (simp add: ecef2eccdf_def example_pole example_base_vectors dot_def items_as_arrays
      case_prod_unfold)

lemma example_eccdf2ecef:
  "eccdf2ecef example_constants v 2021 =
     Inr (NdArray (map (\<lambda>(x, y, z). (- x, - y, z)) (items v)))"
  by (simp add: eccdf2ecef_def example_pole example_base_vectors items_as_arrays
      case_prod_unfold)

lemma geodetic2ecef_not_origin:
  assumes "0 < RE_M C" "0 \<le> E_SQ C" "E_SQ C < 1" "0 \<le> alt"
    "geodetic2ecef C (lat, lon, alt) = (x, y, z)"
  shows "x * x + y * y + z * z \<noteq> 0"
proof
  assume z0: "x * x + y * y + z * z = 0"
  let ?la = "deg2rad lat" and ?lo = "deg2rad lon"
  let ?d = "1 - E_SQ C * (sin ?la)\<^sup>2"
  let ?rho = "RE_M C * (1 / sqrt ?d)"
  have s1: "(sin ?la)\<^sup>2 \<le> 1" by (simp add: abs_square_le_1)
  have "E_SQ C * (sin ?la)\<^sup>2 \<le> E_SQ C * 1"
    using s1 assms(2) by (intro mult_left_mono) auto
  then have d: "0 < ?d" using assms(3) by simp
  then have rho: "0 < ?rho" using assms(1) by simp
  have A: "0 < ?rho + alt" using rho assms(4) by simp
  have "E_SQ C * ?rho < 1 * ?rho" using rho assms(3) by (intro mult_strict_right_mono) auto
  then have B: "0 < ?rho + alt - E_SQ C * ?rho" using assms(4) by simp
  have xyz: "x = (?rho + alt) * cos ?la * cos ?lo" "y = (?rho + alt) * cos ?la * sin ?lo"
    "z = (?rho + alt - E_SQ C * ?rho) * sin ?la"
    using assms(5) by (simp_all add: geodetic2ecef_def Let_def)
  have "x * x \<ge> 0" "y * y \<ge> 0" "z * z \<ge> 0" by simp_all
  with z0 have "x * x = 0" "y * y = 0" "z * z = 0" by linarith+
  then have x0: "x = 0" and y0: "y = 0" and zz: "z = 0" by simp_all
  from zz xyz(3) B have sl: "sin ?la = 0" by simp
  from x0 xyz(1) A have c1: "cos ?la = 0 \<or> cos ?lo = 0" by simp
  from y0 xyz(2) A have c2: "cos ?la = 0 \<or> sin ?lo = 0" by simp
  have "cos ?la = 0"
  proof (rule ccontr)
    assume "cos ?la \<noteq> 0"
    with c1 c2 have "cos ?lo = 0" "sin ?lo = 0" by simp_all
    then show False using sin_cos_squared_add [of ?lo] by simp
  qed
  with sl show False using sin_cos_squared_add [of ?la] by simp
qed

lemma example_geodetic2cd_defined:
  assumes "0 \<le> alt_km"
  shows "\<exists>lat_cd lon_cd alt_cd.
     geodetic2cd example_constants example_pymap3d (Scalar (lat, lon, alt_km)) decimals 2021 =
       Inr (NdArray [(lat_cd, lon_cd, alt_cd)])"
proof -
  obtain x y z where g: "geodetic2ecef example_constants (lat, lon, alt_km * 1000) = (x, y, z)"
    by (metis prod_cases3)
  have "x * x + y * y + z * z \<noteq> 0"
    using assms by (intro geodetic2ecef_not_origin [OF _ _ _ _ g]) (simp_all add: example_constants_def)
  then have r: "sqrt (x * x + y * y + z * z) \<noteq> 0" by simp
  show ?thesis
    using r by (simp add: geodetic2cd_def as_arrays_def example_pymap3d_def g example_ecef2eccdf
        items_def ecef2spherical_def Let_def)
qed

subsection \<open>Shape of the results\<close>

lemma rint_of_int [simp]: "rint (of_int k) = of_int k"
  by (simp add: rint_def)

lemma np_round_of_int: "0 \<le> d \<Longrightarrow> np_round (of_int k) d = of_int k"
proof -
  assume "0 \<le> d"
  have "of_int k * 10 ^ nat d = (of_int (k * 10 ^ nat d) :: real)" by simp
  then have "rint (of_int k * 10 ^ nat d) = of_int k * 10 ^ nat d"
    by (metis rint_of_int)
  then show ?thesis using \<open>0 \<le> d\<close> by (simp add: np_round_def)
qed

lemma example_geodetic2ecef_on_equator:
  "geodetic2ecef example_constants (0, 0, alt) = (6378137 + alt, 0, 0)"
  by (simp add: geodetic2ecef_def example_constants_def deg2rad_def)

lemma ecef2spherical_neg_x_axis:
  assumes "0 < a"
  shows "ecef2spherical (- a, 0, 0) d = Inr (np_round 90 d, np_round 180 d, np_round a d)"
proof -
  have "sqrt (a * a) = a" using assms by simp
  then show ?thesis
    using assms by (simp add: ecef2spherical_def arctan2_def rad2deg_def)
qed

lemma example_geodetic2cd_on_equator:
  assumes "items gg = map (\<lambda>a. (0, 0, of_int a)) alts" "\<forall>a \<in> set alts. 0 \<le> a" "0 \<le> d"
  shows "geodetic2cd example_constants example_pymap3d gg d 2021 =
     Inr (NdArray (map (\<lambda>a. (0, 180, of_int (a * 1000))) alts))"
proof -
  have n90: "np_round 90 2 = 90" "np_round 180 2 = 180"
    using np_round_of_int [of 2 90] np_round_of_int [of 2 180] by simp_all
  have sph: "map_err (\<lambda>p. ecef2spherical p 2)
       (map (\<lambda>a. (- (6378137 + of_int a * 1000), 0, 0)) alts) =
     Inr (map (\<lambda>a. (90, 180, 6378137 + of_int a * 1000)) alts)"
    using assms(2)
  proof (induction alts)
    case Nil
    then show ?case by simp
  next
    case (Cons a alts)
    have "0 < 6378137 + real_of_int a * 1000" using Cons.prems by simp
    from ecef2spherical_neg_x_axis [OF this, of 2]
    have "ecef2spherical (- (6378137 + real_of_int a * 1000), 0, 0) 2 =
        Inr (90, 180, 6378137 + real_of_int a * 1000)"
      using np_round_of_int [of 2 "6378137 + a * 1000"] by (simp add: n90)
    then show ?case using Cons by simp
  qed
  have z: "np_round 0 d = 0" using np_round_of_int [of d 0] assms(3) by simp
  have r: "np_round (real_of_int a * 1000) d = real_of_int a * 1000" for a
    using np_round_of_int [of d "a * 1000"] assms(3) by simp
  have geoc: "map (\<lambda>(gglat_deg, gglon_deg, ggalt_km).
        pm_geodetic2ecef example_pymap3d (gglat_deg, gglon_deg, ggalt_km * 1000)) (as_arrays gg) =
      map (\<lambda>a. (6378137 + of_int a * 1000, 0, 0)) alts"
    by (simp add: items_as_arrays assms(1) example_pymap3d_def
        example_geodetic2ecef_on_equator comp_def)
  have cd: "ecef2eccdf example_constants
        (NdArray (map (\<lambda>a. (6378137 + of_int a * 1000, 0, 0)) alts)) 2021 =
      Inr (NdArray (map (\<lambda>a. (- (6378137 + of_int a * 1000), 0, 0)) alts))"
    by (simp add: example_ecef2eccdf items_def comp_def)
  have it: "items (NdArray xs) = xs" for xs :: "(real \<times> real \<times> real) list"
    by (simp add: items_def)
  have re: "RE_M example_constants = 6378137" by (simp add: example_constants_def)
  show ?thesis
    unfolding geodetic2cd_def Let_def geoc cd sum.case it sph re
    by (simp add: comp_def z r)
qed

text \<open>
  Claim C8, amended. Whenever they return, \<open>ecef2eccdf\<close>, \<open>eccdf2ecef\<close>, \<open>geodetic2cd\<close>,
  \<open>cd2geodetic\<close> and \<open>mlon2mlt\<close> return numpy arrays with one element for each element of
  the input: a list or an array of length N gives arrays of length N, and a single number
  gives arrays of length 1, not a scalar. \<open>subsol\<close> returns two scalars for a single
  datetime and arrays of length N for an array of N instants.
\<close>

theorem transforms_return_arrays:
  "(ecef2eccdf C v year = Inr out1 \<longrightarrow>
      (\<exists>xs. out1 = NdArray xs \<and> length xs = length (items v))) \<and>
   (eccdf2ecef C v year = Inr out2 \<longrightarrow>
      (\<exists>xs. out2 = NdArray xs \<and> length xs = length (items v))) \<and>
   (geodetic2cd C P v decimals year = Inr out3 \<longrightarrow>
      (\<exists>xs. out3 = NdArray xs \<and> length xs = length (items v))) \<and>
   (cd2geodetic C P v decimals year = Inr out4 \<longrightarrow>
      (\<exists>xs. out4 = NdArray xs \<and> length xs = length (items v))) \<and>
   (mlon2mlt C P mlon_cd t h = Inr out5 \<longrightarrow>
      (\<exists>xs. out5 = NdArray xs \<and> length xs = length (items mlon_cd))) \<and>
   (subsol (Scalar t0) = Inr out6 \<longrightarrow> (\<exists>p. out6 = Scalar p)) \<and>
   (subsol (NdArray ts) = Inr out7 \<longrightarrow>
      (\<exists>ps. out7 = NdArray ps \<and> length ps = length ts))"
  using ecef2eccdf_shape [of C v year out1] eccdf2ecef_shape [of C v year out2]
    geodetic2cd_shape [of C P v decimals year out3]
    cd2geodetic_shape [of C P v decimals year out4]
    mlon2mlt_form [of C P mlon_cd t h out5]
    subsol_shape(1) [of t0 out6] subsol_shape(2) [of ts out7]
  by auto


theorem transforms_return_arrays_witness:
  "\<exists>xs. geodetic2cd example_constants example_pymap3d (NdArray [(0, 0, 0), (0, 0, 1)]) 2 2021 =
          Inr (NdArray xs) \<and> xs = [(0, 180, 0), (0, 180, 1000)] \<and> length xs = 2"
proof -
  have i: "items (NdArray [(0, 0, 0), (0, 0, 1)]) = map (\<lambda>a. (0 :: real, 0 :: real, real_of_int a)) [0, 1]"
    by (simp add: items_def)
  have p: "\<forall>a \<in> set [0, 1 :: int]. 0 \<le> a" by simp
  have e: "geodetic2cd example_constants example_pymap3d (NdArray [(0, 0, 0), (0, 0, 1)]) 2 2021 =
     Inr (NdArray [(0, 180, 0), (0, 180, 1000)])"
    using example_geodetic2cd_on_equator [OF i p, of 2] by simp
  note t = transforms_return_arrays [where C = example_constants and P = example_pymap3d
      and v = "NdArray [(0, 0, 0), (0, 0, 1)]" and decimals = 2 and year = 2021
      and ?out3.0 = "NdArray [(0, 180, 0), (0, 180, 1000)]"]
  from t [THEN conjunct2, THEN conjunct2, THEN conjunct1, THEN mp, OF e]
  obtain xs where xs: "NdArray [(0 :: real, 180 :: real, 0 :: real), (0, 180, 1000)] = NdArray xs"
    "length xs = length (items (NdArray [(0 :: real, 0 :: real, 0 :: real), (0, 0, 1)]))"
    by (elim exE conjE)
  have "length xs = 2" using xs(2) by (simp add: items_def)
  moreover have "xs = [(0, 180, 0), (0, 180, 1000)]" using xs(1) by simp
  ultimately show ?thesis using e by simp
qed

text \<open>
  The claim as stated fails for a scalar input: \<open>geodetic2cd(0, 0, 0)\<close> on the example
  constants returns three arrays of one element each.
\<close>

theorem scalar_input_gives_array_counterexample:
  "geodetic2cd example_constants example_pymap3d (Scalar (0, 0, 0)) 2 2021 =
     Inr (NdArray [(0, 180, 0)])"
proof -
  have i: "items (Scalar (0, 0, 0)) = map (\<lambda>a. (0 :: real, 0 :: real, real_of_int a)) [0]"
    by (simp add: items_def)
  have p: "\<forall>a \<in> set [0 :: int]. 0 \<le> a" by simp
  show ?thesis
    using example_geodetic2cd_on_equator [OF i p, of 2] by simp
qed

subsection \<open>The range of the magnetic local time\<close>

lemma mlon2mlt_unfold:
  assumes "mlon2mlt C P mlon_cd t h = Inr out"
  shows "\<exists>sslat_geo sslon_geo sslat_cd sslon_cd ssalt_cd.
     (\<exists>ss. subsol t = Inr ss \<and> py_float ss = Inr (sslat_geo, sslon_geo)) \<and>
     geodetic2cd C P (Scalar (sslat_geo, sslon_geo, h)) 2 2021 =
       Inr (NdArray [(sslat_cd, sslon_cd, ssalt_cd)]) \<and>
     out = NdArray (map (\<lambda>mlon. np_mod ((180 + mlon - sslon_cd) / 15) 24) (items mlon_cd))"
proof -
  from assms obtain ss sslat_geo sslon_geo ss_cd sslat_cd sslon_cd ssalt_cd where
    s: "subsol t = Inr ss" "py_float ss = Inr (sslat_geo, sslon_geo)" and
    g: "geodetic2cd C P (Scalar (sslat_geo, sslon_geo, h)) 2 2021 = Inr ss_cd" and
    i: "items ss_cd = [(sslat_cd, sslon_cd, ssalt_cd)]" and
    o: "out = NdArray (map (\<lambda>mlon. np_mod ((180 + mlon - sslon_cd) / 15) 24)
        (as_arrays mlon_cd))"
    by (auto simp: mlon2mlt_def split: sum.splits prod.splits list.splits)
  from geodetic2cd_shape [OF g] i have "ss_cd = NdArray [(sslat_cd, sslon_cd, ssalt_cd)]"
    by (auto simp: items_def)
  with s g o show ?thesis unfolding items_as_arrays by blast
qed

lemma example_mlon2mlt_defined:
  assumes "1601 \<le> dt_year d" "dt_year d \<le> 2100" "0 \<le> h"
  shows "\<exists>sslon_cd. mlon2mlt example_constants example_pymap3d mlon_cd (Scalar d) h =
     Inr (NdArray (map (\<lambda>mlon. np_mod ((180 + mlon - sslon_cd) / 15) 24) (items mlon_cd)))"
proof -
  obtain sslat sslon where
    e: "subsol_element (dt_year d) (tm_yday d) (seconds_of_day d) = (sslat, sslon)"
    by (metis surj_pair)
  have s: "subsol (Scalar d) = Inr (Scalar (sslat, sslon))"
    using assms(1,2) by (simp add: subsol_def e)
  from example_geodetic2cd_defined [OF assms(3), of sslat sslon 2]
  obtain lat_cd lon_cd alt_cd where
    g: "geodetic2cd example_constants example_pymap3d (Scalar (sslat, sslon, h)) 2 2021 =
       Inr (NdArray [(lat_cd, lon_cd, alt_cd)])"
    by blast
  have "mlon2mlt example_constants example_pymap3d mlon_cd (Scalar d) h =
     Inr (NdArray (map (\<lambda>mlon. np_mod ((180 + mlon - lon_cd) / 15) 24) (items mlon_cd)))"
    by (simp add: mlon2mlt_def s py_float_def g items_def items_as_arrays)
  then show ?thesis by blast
qed

subsection \<open>The epoch of the pole used for the magnetic local time\<close>

lemma ecef2eccdf_pole_only:
  assumes "compute_pos_centered_dipole_north_pole C year =
    compute_pos_centered_dipole_north_pole C' year"
  shows "ecef2eccdf C v year = ecef2eccdf C' v year"
  by (simp add: ecef2eccdf_def assms)

lemma geodetic2cd_longitudes:
  "(case geodetic2cd C P gg d year of
      Inl e \<Rightarrow> Inl e
    | Inr out \<Rightarrow> Inr (map (\<lambda>(lat_cd, lon_cd, alt_cd). lon_cd) (items out))) =
   (case ecef2eccdf C (NdArray (map (\<lambda>(gglat_deg, gglon_deg, ggalt_km).
            pm_geodetic2ecef P (gglat_deg, gglon_deg, ggalt_km * 1000)) (as_arrays gg))) year of
      Inl e \<Rightarrow> Inl e
    | Inr cd \<Rightarrow>
        (case map_err (\<lambda>p. ecef2spherical p 2) (items cd) of
           Inl e \<Rightarrow> Inl e
         | Inr sph \<Rightarrow> Inr (map (\<lambda>(colat_cd, long_cd, r_cd). long_cd) sph)))"
  by (simp add: geodetic2cd_def Let_def items_def comp_def case_prod_unfold
      split: sum.splits)

lemma mlon2mlt_by_longitudes:
  "mlon2mlt C P mlon_cd t h =
     (case subsol t of
        Inl e \<Rightarrow> Inl e
      | Inr ss \<Rightarrow>
          (case py_float ss of
             Inl e \<Rightarrow> Inl e
           | Inr (sslat_geo, sslon_geo) \<Rightarrow>
               (case (case geodetic2cd C P (Scalar (sslat_geo, sslon_geo, h)) 2 2021 of
                        Inl e \<Rightarrow> Inl e
                      | Inr out \<Rightarrow>
                          Inr (map (\<lambda>(lat_cd, lon_cd, alt_cd). lon_cd) (items out))) of
                  Inl e \<Rightarrow> Inl e
                | Inr lons \<Rightarrow>
                    (case lons of
                       [sslon_cd] \<Rightarrow>
                         Inr (NdArray
                           (map (\<lambda>mlon. np_mod ((180 + mlon - sslon_cd) / 15) 24)
                              (as_arrays mlon_cd)))
                     | _ \<Rightarrow> Inl ValueError))))"
  by (auto simp: mlon2mlt_def split: sum.splits prod.splits list.splits)

lemma mlon2mlt_pole_only:
  assumes "compute_pos_centered_dipole_north_pole C 2021 =
    compute_pos_centered_dipole_north_pole C' 2021"
  shows "mlon2mlt C P mlon_cd t h = mlon2mlt C' P mlon_cd t h"
  unfolding mlon2mlt_by_longitudes geodetic2cd_longitudes ecef2eccdf_pole_only [OF assms]
  by (rule refl)


lemma pole_closed_form:
  assumes "1900 \<le> date" "date \<le> 2030" "epoch_params date = (t, tc, int ll, nmx, int nc)"
    "nc = nmx * nmx + 2 * nmx" "1 \<le> ll" "ll + 2 * nc \<le> length (GH C)" "1 \<le> nmx"
  shows "compute_pos_centered_dipole_north_pole C date =
     (let a = tc * GH C ! ll + t * GH C ! (ll + nc);
          b = tc * GH C ! (ll + 1) + t * GH C ! (ll + 1 + nc);
          c = tc * GH C ! (ll + 2) + t * GH C ! (ll + 2 + nc)
      in if sqrt (a\<^sup>2 + b\<^sup>2 + c\<^sup>2) = 0 then Inl FloatingPointNaN
         else Inr (arccos (- a / sqrt (a\<^sup>2 + b\<^sup>2 + c\<^sup>2)), arctan2 c b - pi))"
proof -
  let ?gh = "GH C"
  let ?g = "map (\<lambda>n. g_row ?gh tc t (int nc) n (int ll - 1 + int n * int n)) [0..<nmx + 1]"
  let ?h = "map (\<lambda>n. h_row ?gh tc t (int nc) n (int ll - 1 + int n * int n)) [0..<nmx + 1]"
  have len: "int ll + 2 * int nc \<le> int (length ?gh)"
    using assms(6) by (metis of_nat_add of_nat_le_iff of_nat_mult of_nat_numeral)
  have r: "get_coeffs ?gh date = Inr (?g, ?h)"
  proof (rule get_coeffs_rows [OF assms(1,2,3)])
    show "int nc = int nmx * int nmx + 2 * int nmx" unfolding assms(4) by simp
    show "- int (length ?gh) \<le> int ll - 1" using assms(5) by simp
    show "int ll + 2 * int nc \<le> int (length ?gh)" by (rule len)
  qed
  have ne: "?g \<noteq> []" by simp
  have n1: "1 < nmx + 1" using assms(7) by simp
  have g1: "?g ! 1 = g_row ?gh tc t (int nc) 1 (int ll)"
    using n1 by (simp del: upt_Suc)
  have h1: "?h ! 1 = h_row ?gh tc t (int nc) 1 (int ll)"
    using n1 by (simp del: upt_Suc)
  have a: "?g ! 1 ! 0 = Some (tc * ?gh ! ll + t * ?gh ! (ll + nc))"
    unfolding g1 by (simp add: g_row_def val_nonneg nat_add_distrib)
  have b: "?g ! 1 ! 1 = Some (tc * ?gh ! (ll + 1) + t * ?gh ! (ll + 1 + nc))"
    unfolding g1 by (simp add: g_row_def val_nonneg nat_add_distrib)
  have c: "?h ! 1 ! 1 = Some (tc * ?gh ! (ll + 2) + t * ?gh ! (ll + 2 + nc))"
    unfolding h1 by (simp add: h_row_def val_nonneg nat_add_distrib)
  show ?thesis
    unfolding pole_from_entries [OF r ne a b c] Let_def by (rule refl)
qed

lemma pole_2021_closed_form:
  assumes "3645 \<le> length (GH C)"
  shows "compute_pos_centered_dipole_north_pole C 2021 =
     (let a = 1 * GH C ! 3255 + 1 * GH C ! (3255 + 195);
          b = 1 * GH C ! (3255 + 1) + 1 * GH C ! (3255 + 1 + 195);
          c = 1 * GH C ! (3255 + 2) + 1 * GH C ! (3255 + 2 + 195)
      in if sqrt (a\<^sup>2 + b\<^sup>2 + c\<^sup>2) = 0 then Inl FloatingPointNaN
         else Inr (arccos (- a / sqrt (a\<^sup>2 + b\<^sup>2 + c\<^sup>2)), arctan2 c b - pi))"
proof -
  have p: "epoch_params 2021 = (1, 1, int 3255, 13, int 195)"
    using epoch_params_2020 [of 2021] by simp
  show ?thesis
    using assms by (intro pole_closed_form [OF _ _ p]) auto
qed

lemma pole_1950_closed_form:
  assumes "3645 \<le> length (GH C)"
  shows "compute_pos_centered_dipole_north_pole C 1950 =
     (let a = 1 * GH C ! 1200 + 0 * GH C ! (1200 + 120);
          b = 1 * GH C ! (1200 + 1) + 0 * GH C ! (1200 + 1 + 120);
          c = 1 * GH C ! (1200 + 2) + 0 * GH C ! (1200 + 2 + 120)
      in if sqrt (a\<^sup>2 + b\<^sup>2 + c\<^sup>2) = 0 then Inl FloatingPointNaN
         else Inr (arccos (- a / sqrt (a\<^sup>2 + b\<^sup>2 + c\<^sup>2)), arctan2 c b - pi))"
proof -
  have p: "epoch_params 1950 = (0, 1, int 1200, 10, int 120)"
    using epoch_params_before_1995 [of 1950 10] by simp
  show ?thesis
    using assms by (intro pole_closed_form [OF _ _ p]) auto
qed

lemma example_GH_early_length: "length example_GH_early = 3646"
  by (simp add: example_GH_early_def)

lemma example_GH_early_nth:
  "i < 3646 \<Longrightarrow> example_GH_early ! i = (if i < 3000 then 7 else if i = 3255 then - 1 else 0)"
  by (auto simp: example_GH_early_def nth_append)

lemma example_early_pole_2021:
  "compute_pos_centered_dipole_north_pole example_constants_early 2021 = Inr (0, - pi)"
proof -
  have l: "3645 \<le> length (GH example_constants_early)"
    by (simp add: example_constants_early_def example_GH_early_length)
  show ?thesis
    unfolding pole_2021_closed_form [OF l]
    by (simp add: example_constants_early_def example_GH_early_nth arctan2_def)
qed

lemma example_pole_1950:
  "compute_pos_centered_dipole_north_pole example_constants 1950 = Inl FloatingPointNaN"
proof -
  have l: "3645 \<le> length (GH example_constants)"
    by (simp add: example_constants_def example_GH_length)
  show ?thesis
    unfolding pole_1950_closed_form [OF l]
    by (simp add: example_constants_def example_GH_nth)
qed

lemma example_early_pole_1950:
  "\<exists>p. compute_pos_centered_dipole_north_pole example_constants_early 1950 = Inr p"
proof -
  have l: "3645 \<le> length (GH example_constants_early)"
    by (simp add: example_constants_early_def example_GH_early_length)
  show ?thesis
    unfolding pole_1950_closed_form [OF l]
    by (simp add: example_constants_early_def example_GH_early_nth)
qed

text \<open>
  Claim C10. \<open>mlon2mlt\<close> depends on the constants only through the dipole pole of the year
  2021.0: two sets of constants with the same pole for 2021.0 give the same magnetic local
  time at every instant, whatever the year of the instant and whatever the poles of that
  year are. The instant enters through the subsolar point alone.
\<close>

theorem mlon2mlt_uses_pole_of_2021:
  assumes "compute_pos_centered_dipole_north_pole C 2021 =
    compute_pos_centered_dipole_north_pole C' 2021"
  shows "mlon2mlt C P mlon_cd t h = mlon2mlt C' P mlon_cd t h"
  using assms by (rule mlon2mlt_pole_only)

theorem mlon2mlt_uses_pole_of_2021_witness:
  "compute_pos_centered_dipole_north_pole example_constants 1950 \<noteq>
     compute_pos_centered_dipole_north_pole example_constants_early 1950 \<and>
   mlon2mlt example_constants example_pymap3d (Scalar 0)
     (Scalar \<lparr>dt_year = 1950, dt_month = 1, dt_day = 1,
              dt_hour = 0, dt_minute = 0, dt_second = 0\<rparr>) 318550 =
   mlon2mlt example_constants_early example_pymap3d (Scalar 0)
     (Scalar \<lparr>dt_year = 1950, dt_month = 1, dt_day = 1,
              dt_hour = 0, dt_minute = 0, dt_second = 0\<rparr>) 318550"
proof -
  have p: "compute_pos_centered_dipole_north_pole example_constants 2021 =
      compute_pos_centered_dipole_north_pole example_constants_early 2021"
    by (simp add: example_pole example_early_pole_2021)
  have d: "compute_pos_centered_dipole_north_pole example_constants 1950 \<noteq>
     compute_pos_centered_dipole_north_pole example_constants_early 1950"
    using example_early_pole_1950 by (auto simp: example_pole_1950)
  show ?thesis
    using d mlon2mlt_uses_pole_of_2021 [OF p] by simp
qed

subsection \<open>Rounding inside geodetic2cd\<close>

lemma rint_is_int: "\<exists>k. rint x = of_int k"
  by (simp add: rint_def Let_def) (metis of_int_add of_int_1)

lemma np_round_2_hundredths: "\<exists>k. np_round x 2 = of_int k / 100"
proof -
  obtain k where "rint (x * 10 ^ nat 2) = of_int k" using rint_is_int by blast
  then show ?thesis by (auto simp: np_round_def)
qed

lemma np_round_keeps_hundredths:
  assumes "2 \<le> d"
  shows "np_round (of_int k / 100) d = of_int k / 100"
proof -
  have "2 \<le> nat d" using assms by simp
  then obtain n where n: "nat d = n + 2"
    by (metis le_add_diff_inverse2)
  have "real_of_int k / 100 * 10 ^ nat d = of_int (k * 10 ^ n)"
    unfolding n by (simp add: power_add)
  then have "rint (real_of_int k / 100 * 10 ^ nat d) = real_of_int k / 100 * 10 ^ nat d"
    by (metis rint_of_int)
  then show ?thesis using assms by (simp add: np_round_def)
qed

lemma map_err_set:
  "map_err f xs = Inr ys \<Longrightarrow> y \<in> set ys \<Longrightarrow> \<exists>x \<in> set xs. f x = Inr y"
proof (induction xs arbitrary: ys)
  case Nil
  then show ?case by simp
next
  case (Cons x xs)
  then show ?case by (auto split: sum.splits)
qed

lemma ecef2spherical_2_hundredths:
  assumes "ecef2spherical p 2 = Inr (colat, long, r)"
  shows "\<exists>k. colat = of_int k / 100" "\<exists>k. r = of_int k / 100"
  using assms np_round_2_hundredths
  by (auto simp: ecef2spherical_def Let_def split: prod.splits if_splits)

lemma second_rounding_idle:
  assumes "2 \<le> d" "RE_M C = of_int j / 100" "ecef2spherical p 2 = Inr (colat, long, r)"
  shows "np_round (90 - colat) d = np_round (90 - colat) 2"
    and "np_round (r - RE_M C) d = np_round (r - RE_M C) 2"
proof -
  from ecef2spherical_2_hundredths [OF assms(3)] obtain k l where
    kl: "colat = of_int k / 100" "r = of_int l / 100"
    by blast
  have a: "90 - colat = of_int (9000 - k) / 100" unfolding kl by simp
  have b: "r - RE_M C = of_int (l - j) / 100" unfolding kl assms(2) by (simp add: diff_divide_distrib)
  have two: "(2 :: int) \<le> 2" by simp
  show "np_round (90 - colat) d = np_round (90 - colat) 2"
    unfolding a np_round_keeps_hundredths [OF assms(1)] np_round_keeps_hundredths [OF two]
    by (rule refl)
  show "np_round (r - RE_M C) d = np_round (r - RE_M C) 2"
    unfolding b np_round_keeps_hundredths [OF assms(1)] np_round_keeps_hundredths [OF two]
    by (rule refl)
qed

lemma geodetic2cd_decimals_idle:
  assumes "2 \<le> decimals" "\<exists>k. RE_M C = of_int k / 100"
  shows "geodetic2cd C P gg decimals year = geodetic2cd C P gg 2 year"
proof -
  obtain j where j: "RE_M C = of_int j / 100" using assms(2) by blast
  have eq: "map (\<lambda>(colat_cd, long_cd, r_cd).
          (np_round (90 - colat_cd) decimals, long_cd, np_round (r_cd - RE_M C) decimals)) sph =
        map (\<lambda>(colat_cd, long_cd, r_cd).
          (np_round (90 - colat_cd) 2, long_cd, np_round (r_cd - RE_M C) 2)) sph"
    if "map_err (\<lambda>p. ecef2spherical p 2) xs = Inr sph" for xs sph
  proof (rule map_cong [OF refl])
    fix s assume "s \<in> set sph"
    from map_err_set [OF that this] obtain p where p: "ecef2spherical p 2 = Inr s" by blast
    obtain colat long r where s: "s = (colat, long, r)" by (metis prod_cases3)
    from second_rounding_idle [OF assms(1) j p [unfolded s]]
    show "(case s of (colat_cd, long_cd, r_cd) \<Rightarrow>
          (np_round (90 - colat_cd) decimals, long_cd, np_round (r_cd - RE_M C) decimals)) =
        (case s of (colat_cd, long_cd, r_cd) \<Rightarrow>
          (np_round (90 - colat_cd) 2, long_cd, np_round (r_cd - RE_M C) 2))"
      unfolding s by simp
  qed
  let ?cd = "ecef2eccdf C (NdArray (map (\<lambda>(gglat_deg, gglon_deg, ggalt_km).
      pm_geodetic2ecef P (gglat_deg, gglon_deg, ggalt_km * 1000)) (as_arrays gg))) year"
  show ?thesis
  proof (cases ?cd)
    case (Inl e)
    then show ?thesis by (simp add: geodetic2cd_def)
  next
    case (Inr cd)
    show ?thesis
    proof (cases "map_err (\<lambda>p. ecef2spherical p 2) (items cd)")
      case (Inl e)
      then show ?thesis using Inr by (simp add: geodetic2cd_def)
    next
      case sph: (Inr sph)
      show ?thesis
        using Inr sph eq [OF sph] by (simp add: geodetic2cd_def)
    qed
  qed
qed


lemma example_geodetic2ecef_equator:
  "geodetic2ecef example_constants (0, lon, alt) =
     ((6378137 + alt) * cos (deg2rad lon), (6378137 + alt) * sin (deg2rad lon), 0)"
  by (simp add: geodetic2ecef_def example_constants_def deg2rad_def Let_def)

lemma arctan2_third_quadrant:
  assumes "0 < a" "0 < th" "th < pi / 2"
  shows "arctan2 (- (a * sin th)) (- (a * cos th)) = th - pi"
proof -
  have c: "0 < cos th" using assms(2,3) by (simp add: cos_gt_zero_pi)
  have s: "0 < sin th" using assms(2,3) by (intro sin_gt_zero) auto
  have x: "- (a * cos th) < 0" using assms(1) c by simp
  have y: "- (a * sin th) < 0" using assms(1) s by simp
  have "- (a * sin th) / - (a * cos th) = tan th"
    using assms(1) by (simp add: tan_def)
  moreover have "arctan (tan th) = th" using assms(2,3) by (intro arctan_tan) auto
  ultimately show ?thesis using x y by (simp add: arctan2_def)
qed

lemma ecef2spherical_third_quadrant:
  assumes "0 < a" "0 < th" "th < pi / 2"
  shows "ecef2spherical (- (a * cos th), - (a * sin th), 0) d =
     Inr (np_round 90 d, np_round (rad2deg (th - pi)) d, np_round a d)"
proof -
  have sc: "sin th * sin th + cos th * cos th = 1"
    using sin_cos_squared_add [of th] by (simp add: power2_eq_square)
  have "(a * cos th) * (a * cos th) + (a * sin th) * (a * sin th) =
      a * a * (sin th * sin th + cos th * cos th)"
    by (simp only: distrib_left ac_simps)
  then have "(a * cos th) * (a * cos th) + (a * sin th) * (a * sin th) = a * a"
    unfolding sc by simp
  then have r: "sqrt (- (a * cos th) * - (a * cos th) + - (a * sin th) * - (a * sin th) + 0 * 0) = a"
    using assms(1) by simp
  have a0: "a \<noteq> 0" using assms(1) by simp
  show ?thesis
    unfolding ecef2spherical_def prod.case Let_def r arctan2_third_quadrant [OF assms]
    using a0 by (simp add: rad2deg_def)
qed

lemma eighth_of_a_degree: "0 < deg2rad (1 / 8)" "deg2rad (1 / 8) < pi / 2"
  "rad2deg (deg2rad (1 / 8) - pi) = - (1439 / 8)"
  by (simp_all add: deg2rad_def rad2deg_def field_simps)

lemma rint_half_example: "rint (- (35975 / 2)) = - 17988"
proof -
  have "\<lfloor>- (35975 / 2) :: real\<rfloor> = - 17988" by (simp add: floor_unique)
  then show ?thesis by (simp add: rint_def)
qed

lemma example_geodetic2cd_eighth:
  "geodetic2cd example_constants example_pymap3d (Scalar (0, 1 / 8, 0)) 2 2021 =
     Inr (NdArray [(0, - (17988 / 100), 0)])"
proof -
  let ?th = "deg2rad (1 / 8)"
  have sph: "ecef2spherical (- (6378137 * cos ?th), - (6378137 * sin ?th), 0) 2 =
      Inr (90, - (17988 / 100), 6378137)"
    unfolding ecef2spherical_third_quadrant [OF _ eighth_of_a_degree(1,2), of 6378137 2, simplified]
      eighth_of_a_degree(3)
    using np_round_of_int [of 2 90] np_round_of_int [of 2 6378137] rint_half_example
    by (simp add: np_round_def)
  have z: "np_round 0 2 = 0" using np_round_of_int [of 2 0] by simp
  show ?thesis
    by (simp add: geodetic2cd_def as_arrays_def example_pymap3d_def
        example_geodetic2ecef_equator example_ecef2eccdf items_def sph z)
      (simp add: example_constants_def z)
qed

text \<open>
  Claim C7 fails on the code. \<open>geodetic2cd\<close> rounds inside the pipeline: it calls
  \<open>ecef2spherical\<close> with the default of 2 decimals, whatever its own \<open>decimals\<close> is. The
  longitude is returned as rounded there, and the latitude and the altitude are rounded
  a second time. So for every \<open>decimals\<close> of 2 or more (and an equatorial radius that is a
  multiple of 0.01, as 6378137.0 is) the result is the result for 2 decimals. On the
  example constants the call with the longitude 0.125 and \<open>decimals = 3\<close> returns the
  longitude -179.88, where one rounding of -179.875 to 3 decimals would change nothing.
\<close>

theorem geodetic2cd_decimals_above_2_ignored:
  assumes "2 \<le> decimals" "\<exists>k. RE_M C = of_int k / 100"
  shows "geodetic2cd C P gg decimals year = geodetic2cd C P gg 2 year"
  using assms by (rule geodetic2cd_decimals_idle)

theorem geodetic2cd_decimals_above_2_ignored_witness:
  "geodetic2cd example_constants example_pymap3d (Scalar (0, 1 / 8, 0)) 3 2021 =
     Inr (NdArray [(0, - (17988 / 100), 0)]) \<and>
   np_round (- (1439 / 8)) 3 = - (1439 / 8)"
proof -
  have r: "\<exists>k. RE_M example_constants = real_of_int k / 100"
    by (rule exI [of _ 637813700]) (simp add: example_constants_def)
  have "np_round (- (1439 / 8)) 3 = - (1439 / 8)"
    using np_round_of_int [of 0 "- 179875"] by (simp add: np_round_def)
  then show ?thesis
    using geodetic2cd_decimals_above_2_ignored [of 3 example_constants example_pymap3d
        "Scalar (0, 1 / 8, 0)" 2021, OF _ r]
    by (simp add: example_geodetic2cd_eighth)
qed

subsection \<open>The round trip through the CD frame\<close>

lemma rotate_back:
  fixes cc sc cl sl x y z :: real
  assumes c: "sc * sc + cc * cc = 1" and l: "sl * sl + cl * cl = 1"
  shows "(cc * cl * x + cc * sl * y + (- sc) * z) * (cc * cl) +
         ((- sl) * x + cl * y + 0 * z) * (- sl) +
         (sc * cl * x + sc * sl * y + cc * z) * (sc * cl) = x"
    and "(cc * cl * x + cc * sl * y + (- sc) * z) * (cc * sl) +
         ((- sl) * x + cl * y + 0 * z) * cl +
         (sc * cl * x + sc * sl * y + cc * z) * (sc * sl) = y"
    and "(cc * cl * x + cc * sl * y + (- sc) * z) * (- sc) +
         ((- sl) * x + cl * y + 0 * z) * 0 +
         (sc * cl * x + sc * sl * y + cc * z) * cc = z"
  using c l by algebra+

lemma eccdf2ecef_inverts:
  assumes "ecef2eccdf C (NdArray [v]) year = Inr (NdArray [w])"
  shows "eccdf2ecef C (NdArray [w]) year = Inr (NdArray [v])"
proof -
  from assms obtain cn ln where
    p: "compute_pos_centered_dipole_north_pole C year = Inr (cn, ln)"
    by (auto simp: ecef2eccdf_def split: sum.splits)
  obtain x y z where v: "v = (x, y, z)" by (metis prod_cases3)
  have c: "sin cn * sin cn + cos cn * cos cn = 1"
    using sin_cos_squared_add [of cn] by (simp add: power2_eq_square)
  have l: "sin ln * sin ln + cos ln * cos ln = 1"
    using sin_cos_squared_add [of ln] by (simp add: power2_eq_square)
  from assms have w: "w = (cos cn * cos ln * x + cos cn * sin ln * y + (- sin cn) * z,
      (- sin ln) * x + cos ln * y + 0 * z,
      sin cn * cos ln * x + sin cn * sin ln * y + cos cn * z)"
    by (simp add: ecef2eccdf_def p cd_base_vectors_def dot_def as_arrays_def v)
  show ?thesis
    unfolding eccdf2ecef_def p w v as_arrays_def cd_base_vectors_def
    using rotate_back [OF c l, of x y z]
    by (simp add: mult.commute)
qed


lemma arctan2_cos_sin:
  assumes "x \<noteq> 0 \<or> y \<noteq> 0"
  shows "sqrt (x * x + y * y) * cos (arctan2 y x) = x"
    and "sqrt (x * x + y * y) * sin (arctan2 y x) = y"
proof -
  let ?rho = "sqrt (x * x + y * y)"
  have pos: "0 < x * x + y * y"
    using assms by (metis add_pos_nonneg add_nonneg_pos mult_eq_0_iff not_sum_squares_lt_zero
        sum_squares_eq_zero_iff linorder_neqE_linordered_idom zero_le_square)
  have rho: "0 < ?rho" using pos by simp
  have both: "?rho * cos (arctan2 y x) = x \<and> ?rho * sin (arctan2 y x) = y"
  proof (cases "x = 0")
    case True
    then have y: "y \<noteq> 0" using assms by simp
    have "sqrt (y * y) = \<bar>y\<bar>" by simp
    then show ?thesis using True y by (auto simp: arctan2_def)
  next
    case False
    let ?t = "y / x"
    have e: "x * x + y * y = (x * x) * (1 + ?t\<^sup>2)"
      using False by (simp add: power2_eq_square field_simps)
    have r: "?rho = \<bar>x\<bar> * sqrt (1 + ?t\<^sup>2)"
      unfolding e by (simp add: real_sqrt_mult)
    have s: "0 < sqrt (1 + ?t\<^sup>2)"
      by (simp add: add_pos_nonneg)
    have c1: "?rho * cos (arctan ?t) = \<bar>x\<bar>"
      unfolding r cos_arctan using s by simp
    have s1: "?rho * sin (arctan ?t) = \<bar>x\<bar> * ?t"
      unfolding r sin_arctan using s by simp
    show ?thesis
    proof (cases "0 < x")
      case True
      then show ?thesis using c1 s1 by (simp add: arctan2_def)
    next
      case neg: False
      then have x: "x < 0" using False by simp
      have "?rho * cos (arctan ?t + pi) = x" "?rho * sin (arctan ?t + pi) = y"
        "?rho * cos (arctan ?t - pi) = x" "?rho * sin (arctan ?t - pi) = y"
        using c1 s1 x by (simp_all add: cos_add sin_add cos_diff sin_diff)
      then show ?thesis using x by (simp add: arctan2_def)
    qed
  qed
  show "?rho * cos (arctan2 y x) = x" "?rho * sin (arctan2 y x) = y"
    using both by simp_all
qed

lemma spherical2ecef_inverts:
  assumes "sqrt (x * x + y * y + z * z) \<noteq> 0"
  shows "spherical2ecef (arccos (z / sqrt (x * x + y * y + z * z)), arctan2 y x,
      sqrt (x * x + y * y + z * z)) = (x, y, z)"
proof -
  let ?r = "sqrt (x * x + y * y + z * z)"
  let ?rho = "sqrt (x * x + y * y)"
  have r: "0 < ?r" using assms by (simp add: less_le)
  have rr: "?r * ?r = x * x + y * y + z * z" by simp
  have "z * z \<le> ?r * ?r" unfolding rr by simp
  then have "\<bar>z\<bar> \<le> ?r" using r
    by (metis abs_le_square_iff abs_of_pos power2_eq_square)
  then have "\<bar>z / ?r\<bar> \<le> 1" using r by simp
  then have b: "- 1 \<le> z / ?r" "z / ?r \<le> 1" by linarith+
  have zc: "?r * cos (arccos (z / ?r)) = z"
    using b r by (simp add: cos_arccos)
  have q: "0 \<le> 1 - (z / ?r)\<^sup>2"
    using \<open>\<bar>z / ?r\<bar> \<le> 1\<close> by (simp add: abs_square_le_1)
  have "(?r * sqrt (1 - (z / ?r)\<^sup>2))\<^sup>2 = ?r\<^sup>2 * (sqrt (1 - (z / ?r)\<^sup>2))\<^sup>2"
    by (rule power_mult_distrib)
  also have "\<dots> = ?r * ?r * (1 - (z / ?r)\<^sup>2)"
    unfolding real_sqrt_pow2 [OF q] by (simp only: power2_eq_square)
  also have "\<dots> = ?r * ?r - z * z"
    using r by (simp add: power2_eq_square field_simps)
  also have "\<dots> = x * x + y * y" unfolding rr by simp
  finally have "(?r * sqrt (1 - (z / ?r)\<^sup>2))\<^sup>2 = x * x + y * y" .
  moreover have "0 \<le> ?r * sqrt (1 - (z / ?r)\<^sup>2)"
    using r q by (intro mult_nonneg_nonneg) (simp_all del: real_sqrt_gt_0_iff real_sqrt_ge_0_iff, simp_all)
  ultimately have "?r * sqrt (1 - (z / ?r)\<^sup>2) = ?rho"
    by (metis real_sqrt_unique)
  then have sn: "?r * sin (arccos (z / ?r)) = ?rho"
    using b by (simp add: sin_arccos)
  have xy: "?rho * cos (arctan2 y x) = x \<and> ?rho * sin (arctan2 y x) = y"
  proof (cases "x \<noteq> 0 \<or> y \<noteq> 0")
    case True
    then show ?thesis using arctan2_cos_sin by blast
  next
    case False
    then show ?thesis by simp
  qed
  show ?thesis
    unfolding spherical2ecef_def prod.case sn zc using xy by simp
qed


lemma np_round_2_exact_iff: "np_round v 2 = v \<longleftrightarrow> (\<exists>k. v = of_int k / 100)"
proof
  assume "np_round v 2 = v"
  then show "\<exists>k. v = of_int k / 100" using np_round_2_hundredths [of v] by simp
next
  assume "\<exists>k. v = of_int k / 100"
  then obtain k where k: "v = of_int k / 100" by blast
  have two: "(2 :: int) \<le> 2" by simp
  show "np_round v 2 = v" unfolding k by (rule np_round_keeps_hundredths [OF two])
qed

lemma np_round_2_exact_diff:
  assumes "np_round a 2 = a" "np_round b 2 = b"
  shows "np_round (a - b) 2 = a - b"
proof -
  from assms obtain k l where "a = of_int k / 100" "b = of_int l / 100"
    unfolding np_round_2_exact_iff by blast
  then have "a - b = of_int (k - l) / 100" by (simp add: diff_divide_distrib)
  then show ?thesis unfolding np_round_2_exact_iff by blast
qed

lemma deg_rad_inverse: "deg2rad (rad2deg a) = a" "rad2deg (deg2rad a) = a"
  by (simp_all add: deg2rad_def rad2deg_def)

lemma round_trip_exact:
  assumes cd: "ecef2eccdf C (NdArray [pm_geodetic2ecef P (lat, lon, alt_km * 1000)]) year =
      Inr (NdArray [(x, y, z)])"
    and nz: "sqrt (x * x + y * y + z * z) \<noteq> 0"
    and ec: "np_round (rad2deg (arccos (z / sqrt (x * x + y * y + z * z)))) 2 =
      rad2deg (arccos (z / sqrt (x * x + y * y + z * z)))"
    and el: "np_round (rad2deg (arctan2 y x)) 2 = rad2deg (arctan2 y x)"
    and er: "np_round (sqrt (x * x + y * y + z * z)) 2 = sqrt (x * x + y * y + z * z)"
    and ee: "np_round (RE_M C) 2 = RE_M C"
    and lib: "pm_ecef2geodetic P (pm_geodetic2ecef P (lat, lon, alt_km * 1000)) =
      (lat, lon, alt_km * 1000)"
  shows "geodetic_round_trip C P (Scalar (lat, lon, alt_km)) year =
     Inr (NdArray [(np_round lat 3, np_round lon 3, np_round (alt_km * 1000) 3)])"
proof -
  let ?r = "sqrt (x * x + y * y + z * z)"
  let ?c = "rad2deg (arccos (z / ?r))"
  let ?l = "rad2deg (arctan2 y x)"
  have n90: "np_round 90 2 = 90" using np_round_of_int [of 2 90] by simp
  have sph: "ecef2spherical (x, y, z) 2 = Inr (?c, ?l, ?r)"
    using nz by (simp add: ecef2spherical_def Let_def ec el er)
  have fwd: "geodetic2cd C P (Scalar (lat, lon, alt_km)) 2 year =
      Inr (NdArray [(90 - ?c, ?l, ?r - RE_M C)])"
    unfolding geodetic2cd_def Let_def
    by (simp add: as_arrays_def cd items_def sph
        np_round_2_exact_diff [OF n90 ec] np_round_2_exact_diff [OF er ee])
  have cart: "spherical2ecef (deg2rad ?c, deg2rad ?l, ?r) = (x, y, z)"
    using spherical2ecef_inverts [OF nz] by (simp add: deg_rad_inverse)
  have bwd: "cd2geodetic C P (NdArray [(90 - ?c, ?l, ?r - RE_M C)]) 3 year =
      Inr (NdArray [(np_round lat 3, np_round lon 3, np_round (alt_km * 1000) 3)])"
    unfolding cd2geodetic_def Let_def
    by (simp add: cart eccdf2ecef_inverts [OF cd] items_def lib)
  show ?thesis
    unfolding geodetic_round_trip_def fwd by (simp add: bwd)
qed


lemma quarter_turns: "deg2rad 90 = pi / 2" "deg2rad (- 180) = - pi" "deg2rad 180 = pi"
  "rad2deg (pi / 2) = 90" "rad2deg pi = 180"
  by (simp_all add: deg2rad_def rad2deg_def)

lemma example_library_on_equator:
  assumes "0 < 6378137 + alt"
  shows "pm_ecef2geodetic example_pymap3d (6378137 + alt, 0, 0) = (0, 0, alt)"
proof -
  have "sqrt ((6378137 + alt) * (6378137 + alt)) = 6378137 + alt" using assms by simp
  then show ?thesis
    using assms
    by (simp add: example_pymap3d_def equatorial_ecef2geodetic_def example_constants_def
        arctan2_def rad2deg_def)
qed

text \<open>
  Claim C1, amended. Take a position \<open>(lat, lon, alt_km)\<close> and a year for which the dipole
  pole is defined, and let \<open>(x, y, z)\<close> be the CD Cartesian coordinates of the position.
  If the position is not at the centre, if rounding to 2 decimals changes neither its CD
  colatitude, nor its CD longitude, nor its radius, nor the equatorial radius, and if the
  library's \<open>ecef2geodetic\<close> inverts its \<open>geodetic2ecef\<close> at the position, then
  \<open>cd2geodetic(geodetic2cd(lat, lon, alt_km, year), year)\<close> returns the latitude, the
  longitude and 1000 times the altitude, each rounded to 3 decimals: the altitude is
  taken in kilometres and returned in metres.
\<close>

theorem round_trip_returns_metres_when_cd_rounding_is_exact:
  assumes "ecef2eccdf C (NdArray [pm_geodetic2ecef P (lat, lon, alt_km * 1000)]) year =
      Inr (NdArray [(x, y, z)])"
    and "sqrt (x * x + y * y + z * z) \<noteq> 0"
    and "np_round (rad2deg (arccos (z / sqrt (x * x + y * y + z * z)))) 2 =
      rad2deg (arccos (z / sqrt (x * x + y * y + z * z)))"
    and "np_round (rad2deg (arctan2 y x)) 2 = rad2deg (arctan2 y x)"
    and "np_round (sqrt (x * x + y * y + z * z)) 2 = sqrt (x * x + y * y + z * z)"
    and "np_round (RE_M C) 2 = RE_M C"
    and "pm_ecef2geodetic P (pm_geodetic2ecef P (lat, lon, alt_km * 1000)) =
      (lat, lon, alt_km * 1000)"
  shows "geodetic_round_trip C P (Scalar (lat, lon, alt_km)) year =
     Inr (NdArray [(np_round lat 3, np_round lon 3, np_round (alt_km * 1000) 3)])"
  using assms by (rule round_trip_exact)

theorem round_trip_returns_metres_when_cd_rounding_is_exact_witness:
  "geodetic_round_trip example_constants example_pymap3d (Scalar (0, 0, 2)) 2021 =
     Inr (NdArray [(0, 0, 2000)])"
proof -
  let ?a = "6380137 :: real"
  have g: "pm_geodetic2ecef example_pymap3d (0, 0, 2 * 1000) = (?a, 0, 0)"
    by (simp add: example_pymap3d_def example_geodetic2ecef_on_equator)
  have cd: "ecef2eccdf example_constants
      (NdArray [pm_geodetic2ecef example_pymap3d (0, 0, 2 * 1000)]) 2021 =
      Inr (NdArray [(- ?a, 0, 0)])"
    unfolding g by (simp add: example_ecef2eccdf items_def)
  have r: "sqrt (- ?a * - ?a + 0 * 0 + 0 * 0) = ?a" by simp
  have nz: "sqrt (- ?a * - ?a + 0 * 0 + 0 * 0) \<noteq> 0" unfolding r by simp
  have n: "np_round 90 2 = 90" "np_round 180 2 = 180" "np_round ?a 2 = ?a"
    "np_round 6378137 2 = 6378137" "np_round 0 3 = 0" "np_round 2000 3 = 2000"
    using np_round_of_int [of 2 90] np_round_of_int [of 2 180] np_round_of_int [of 2 6380137]
      np_round_of_int [of 2 6378137] np_round_of_int [of 3 0] np_round_of_int [of 3 2000]
    by simp_all
  have ec: "np_round (rad2deg (arccos (0 / sqrt (- ?a * - ?a + 0 * 0 + 0 * 0)))) 2 =
      rad2deg (arccos (0 / sqrt (- ?a * - ?a + 0 * 0 + 0 * 0)))"
    by (simp add: quarter_turns n)
  have el: "np_round (rad2deg (arctan2 0 (- ?a))) 2 = rad2deg (arctan2 0 (- ?a))"
    by (simp add: arctan2_def quarter_turns n)
  have er: "np_round (sqrt (- ?a * - ?a + 0 * 0 + 0 * 0)) 2 = sqrt (- ?a * - ?a + 0 * 0 + 0 * 0)"
    unfolding r by (rule n)
  have ee: "np_round (RE_M example_constants) 2 = RE_M example_constants"
    by (simp add: example_constants_def n)
  have lib: "pm_ecef2geodetic example_pymap3d (pm_geodetic2ecef example_pymap3d (0, 0, 2 * 1000)) =
      (0, 0, 2 * 1000)"
    unfolding g using example_library_on_equator [of 2000] by simp
  show ?thesis
    using round_trip_returns_metres_when_cd_rounding_is_exact [OF cd nz ec el er ee lib]
    by (simp add: n)
qed

text \<open>
  The claim as stated fails at the latitude 0, the longitude 0.004 and the altitude 1 km:
  \<open>geodetic2cd\<close> rounds the CD longitude -179.996 to -180.0 and returns the altitude 1000.0
  in metres, and \<open>cd2geodetic\<close> returns the longitude 0 and the altitude 1000.
\<close>

lemma example_forward_250th:
  "geodetic2cd example_constants example_pymap3d (Scalar (0, 1 / 250, 1)) 2 2021 =
     Inr (NdArray [(0, - 180, 1000)])"
proof -
  let ?th = "deg2rad (1 / 250)"
  have th: "0 < ?th" "?th < pi / 2" "rad2deg (?th - pi) = - (44999 / 250)"
    by (simp_all add: deg2rad_def rad2deg_def field_simps)
  have fl: "\<lfloor>- (89998 / 5) :: real\<rfloor> = - 18000" by (simp add: floor_unique)
  have ri: "rint (- (89998 / 5)) = - 18000" by (simp add: rint_def fl)
  have n: "np_round 90 2 = 90" "np_round 6379137 2 = 6379137" "np_round 0 2 = 0"
    "np_round 1000 2 = 1000"
    using np_round_of_int [of 2 90] np_round_of_int [of 2 6379137] np_round_of_int [of 2 0]
      np_round_of_int [of 2 1000]
    by simp_all
  have sph: "ecef2spherical (- (6379137 * cos ?th), - (6379137 * sin ?th), 0) 2 =
      Inr (90, - 180, 6379137)"
    unfolding ecef2spherical_third_quadrant [OF _ th(1,2), of 6379137 2, simplified] th(3)
    using ri by (simp add: n) (simp add: np_round_def)
  show ?thesis
    by (simp add: geodetic2cd_def as_arrays_def example_pymap3d_def
        example_geodetic2ecef_equator example_ecef2eccdf items_def sph)
      (simp add: example_constants_def n)
qed

lemma example_backward_180:
  "cd2geodetic example_constants example_pymap3d (NdArray [(0, - 180, 1000)]) 3 2021 =
     Inr (NdArray [(0, 0, 1000)])"
proof -
  have cart: "spherical2ecef (deg2rad 90, deg2rad (- 180), 6379137) = (- 6379137, 0, 0)"
    by (simp add: spherical2ecef_def quarter_turns)
  have n: "np_round 0 3 = 0" "np_round 1000 3 = 1000"
    using np_round_of_int [of 3 0] np_round_of_int [of 3 1000] by simp_all
  have lib: "pm_ecef2geodetic example_pymap3d (6379137, 0, 0) = (0, 0, 1000)"
    using example_library_on_equator [of 1000] by simp
  have re: "RE_M example_constants = 6378137" by (simp add: example_constants_def)
  show ?thesis
    unfolding cd2geodetic_def Let_def re
    by (simp add: cart example_eccdf2ecef items_def lib n)
qed

theorem round_trip_counterexample:
  "geodetic_round_trip example_constants example_pymap3d (Scalar (0, 1 / 250, 1)) 2021 =
     Inr (NdArray [(0, 0, 1000)])"
  by (simp add: geodetic_round_trip_def example_forward_250th example_backward_180)

end
